theory Spec2Isabelle
  imports Main
begin

section \<open>Strings, exceptions and outcomes\<close>

text \<open>
  A Python \<open>str\<close> is a sequence of Unicode code points and is modelled as a list of
  natural numbers, one per code point; \<open>bytes\<close> are lists of numbers below 256.
  \<open>ord\<close> gives the code point of an ASCII character and \<open>str\<close> turns a literal
  into a Python string.
\<close>

type_synonym pystr = "nat list"
type_synonym bytes = "nat list"

abbreviation ord :: "char \<Rightarrow> nat" where
  "ord \<equiv> of_char"

definition str :: "string \<Rightarrow> pystr" where
  "str s = map ord s"

text \<open>
  The exceptions that the program raises or handles. \<open>PermissionError\<close>,
  \<open>FileNotFoundError\<close> and \<open>FileExistsError\<close> are subclasses of \<open>OSError\<close>;
  \<open>OSError\<close> itself stands for every other operating-system error.
  \<open>KeyboardInterrupt\<close> and \<open>SystemExit\<close> derive from \<open>BaseException\<close> only, so a
  handler \<open>except Exception\<close> does not catch them. The two \<open>ValueError\<close>s of
  \<open>extract_course_id\<close> are told apart by their message.
\<close>

datatype value_error_message =
    Invalid_Google_Classroom_link
  | Failed_to_decode_course_ID

datatype exn =
    PermissionError
  | FileNotFoundError
  | FileExistsError
  | OSError
  | ValueError value_error_message
  | UnboundLocalError
  | OtherException
  | KeyboardInterrupt
  | SystemExit nat

fun is_OSError :: "exn \<Rightarrow> bool" where
  "is_OSError PermissionError = True"
| "is_OSError FileNotFoundError = True"
| "is_OSError FileExistsError = True"
| "is_OSError OSError = True"
| "is_OSError _ = False"

fun is_Exception :: "exn \<Rightarrow> bool" where
  "is_Exception KeyboardInterrupt = False"
| "is_Exception (SystemExit _) = False"
| "is_Exception _ = True"

datatype 'a outcome = Return 'a | Raise exn

section \<open>Link decoder\<close>

text \<open>The character class \<open>[A-Za-z0-9_-]\<close> of the pattern in \<open>extract_course_id\<close>.\<close>

definition is_id_char :: "nat \<Rightarrow> bool" where
  "is_id_char c \<longleftrightarrow>
     (ord CHR ''A'' \<le> c \<and> c \<le> ord CHR ''Z'') \<or>
     (ord CHR ''a'' \<le> c \<and> c \<le> ord CHR ''z'') \<or>
     (ord CHR ''0'' \<le> c \<and> c \<le> ord CHR ''9'') \<or>
     c = ord CHR ''_'' \<or> c = ord CHR ''-''"

text \<open>
  \<open>re.search(r"/c/([A-Za-z0-9_-]+)", classroom_link)\<close> followed by \<open>match.group(1)\<close>:
  the start positions are tried from left to right; at a position the pattern matches
  when the text there is \<open>/c/\<close> followed by at least one character of the class, and the
  greedy \<open>+\<close> takes the whole run of such characters.
\<close>

fun re_search_course :: "pystr \<Rightarrow> pystr option" where
  "re_search_course [] = None"
| "re_search_course (x # xs) =
     (if x = ord CHR ''/'' \<and> take 2 xs = str ''c/'' \<and> takeWhile is_id_char (drop 2 xs) \<noteq> []
      then Some (takeWhile is_id_char (drop 2 xs))
      else re_search_course xs)"

text \<open>
  \<open>base64.b64decode(s)\<close> with the default \<open>validate=False\<close>. A \<open>str\<close> argument is
  first encoded as ASCII, which fails on a code point above 127. The bytes then go to
  \<open>binascii.a2b_base64\<close> in its non-strict mode (CPython 3.11 and later): a character
  outside the standard alphabet \<open>A-Za-z0-9+/\<close> is skipped, \<open>=\<close> ends the input once it
  completes a group, and data that stops in the middle of a group is an error.
  \<open>b64_value\<close> is the decoding table; the arguments of \<open>a2b_base64\<close> are the loop
  variables \<open>quad_pos\<close>, \<open>leftchar\<close> and \<open>pads\<close> and the input that is left.
\<close>

definition b64_value :: "nat \<Rightarrow> nat option" where
  "b64_value c =
     (if ord CHR ''A'' \<le> c \<and> c \<le> ord CHR ''Z'' then Some (c - ord CHR ''A'')
      else if ord CHR ''a'' \<le> c \<and> c \<le> ord CHR ''z'' then Some (c - ord CHR ''a'' + 26)
      else if ord CHR ''0'' \<le> c \<and> c \<le> ord CHR ''9'' then Some (c - ord CHR ''0'' + 52)
      else if c = ord CHR ''+'' then Some 62
      else if c = ord CHR ''/'' then Some 63
      else None)"

fun a2b_base64 :: "nat \<Rightarrow> nat \<Rightarrow> nat \<Rightarrow> bytes \<Rightarrow> bytes option" where
  "a2b_base64 quad_pos leftchar pads [] = (if quad_pos \<noteq> 0 then None else Some [])"
| "a2b_base64 quad_pos leftchar pads (c # cs) =
     (if c = ord CHR ''='' then
        (if 2 \<le> quad_pos \<and> 4 \<le> quad_pos + (pads + 1) then Some []
         else a2b_base64 quad_pos leftchar (if 2 \<le> quad_pos then pads + 1 else pads) cs)
      else
        (case b64_value c of
           None \<Rightarrow> a2b_base64 quad_pos leftchar pads cs
         | Some v \<Rightarrow>
             (if quad_pos = 0 then a2b_base64 1 v 0 cs
              else if quad_pos = 1 then
                map_option ((#) (leftchar * 4 + v div 16)) (a2b_base64 2 (v mod 16) 0 cs)
              else if quad_pos = 2 then
                map_option ((#) (leftchar * 16 + v div 4)) (a2b_base64 3 (v mod 4) 0 cs)
              else
                map_option ((#) (leftchar * 64 + v)) (a2b_base64 0 0 0 cs))))"

definition b64decode :: "pystr \<Rightarrow> bytes option" where
  "b64decode s = (if list_ex (\<lambda>c. 128 \<le> c) s then None else a2b_base64 0 0 0 s)"

text \<open>
  \<open>bytes.decode("utf-8")\<close>: the strict decoder accepts exactly the well-formed byte
  sequences (no overlong forms, no surrogates, nothing above \<open>U+10FFFF\<close>) and returns
  the code points; \<open>None\<close> stands for \<open>UnicodeDecodeError\<close>.
\<close>

definition is_cont :: "nat \<Rightarrow> bool" where
  "is_cont b \<longleftrightarrow> 0x80 \<le> b \<and> b \<le> 0xBF"

fun utf8_decode :: "bytes \<Rightarrow> pystr option" where
  "utf8_decode [] = Some []"
| "utf8_decode (b0 # bs) =
     (if b0 < 0x80 then map_option ((#) b0) (utf8_decode bs)
      else if 0xC2 \<le> b0 \<and> b0 \<le> 0xDF then
        (case bs of
           b1 # r \<Rightarrow>
             if is_cont b1
             then map_option ((#) ((b0 - 0xC0) * 64 + (b1 - 0x80))) (utf8_decode r)
             else None
         | _ \<Rightarrow> None)
      else if 0xE0 \<le> b0 \<and> b0 \<le> 0xEF then
        (case bs of
           b1 # b2 # r \<Rightarrow>
             if (if b0 = 0xE0 then 0xA0 else 0x80) \<le> b1 \<and>
                b1 \<le> (if b0 = 0xED then 0x9F else 0xBF) \<and> is_cont b2
             then map_option
                    ((#) ((b0 - 0xE0) * 4096 + (b1 - 0x80) * 64 + (b2 - 0x80)))
                    (utf8_decode r)
             else None
         | _ \<Rightarrow> None)
      else if 0xF0 \<le> b0 \<and> b0 \<le> 0xF4 then
        (case bs of
           b1 # b2 # b3 # r \<Rightarrow>
             if (if b0 = 0xF0 then 0x90 else 0x80) \<le> b1 \<and>
                b1 \<le> (if b0 = 0xF4 then 0x8F else 0xBF) \<and> is_cont b2 \<and> is_cont b3
             then map_option
                    ((#) ((b0 - 0xF0) * 262144 + (b1 - 0x80) * 4096 + (b2 - 0x80) * 64
                          + (b3 - 0x80)))
                    (utf8_decode r)
             else None
         | _ \<Rightarrow> None)
      else None)"

text \<open>
  \<open>extract_course_id\<close>. A missing match raises
  \<open>ValueError("Invalid Google Classroom link")\<close>. \<open>decode_course_id\<close> is the
  \<open>try\<close> block of the function: every exception of the decoding
  (\<open>binascii.Error\<close>, \<open>UnicodeDecodeError\<close>) is caught and replaced by
  \<open>ValueError("Failed to decode course ID: ...")\<close>.
\<close>

definition decode_course_id :: "pystr \<Rightarrow> pystr outcome" where
  "decode_course_id encoded_id =
     (case b64decode encoded_id of
        None \<Rightarrow> Raise (ValueError Failed_to_decode_course_ID)
      | Some raw \<Rightarrow>
          (case utf8_decode raw of
             None \<Rightarrow> Raise (ValueError Failed_to_decode_course_ID)
           | Some decoded_id \<Rightarrow> Return decoded_id))"

definition extract_course_id :: "pystr \<Rightarrow> pystr outcome" where
  "extract_course_id classroom_link =
     (case re_search_course classroom_link of
        None \<Rightarrow> Raise (ValueError Invalid_Google_Classroom_link)
      | Some encoded_id \<Rightarrow> decode_course_id encoded_id)"

text \<open>
  The specification speaks of decoding the segment as standard base64. This is the
  strict decoding of RFC 4648, written from those words for comparison with the
  program: the text consists of groups of four characters of the alphabet
  \<open>A-Za-z0-9+/\<close>, and only the last group may end in one or two \<open>=\<close>.
\<close>

fun std_b64decode :: "pystr \<Rightarrow> bytes option" where
  "std_b64decode [] = Some []"
| "std_b64decode (a # b # c # d # rest) =
     (if rest = [] \<and> c = ord CHR ''='' \<and> d = ord CHR ''='' then
        (case (b64_value a, b64_value b) of
           (Some x, Some y) \<Rightarrow> Some [x * 4 + y div 16]
         | _ \<Rightarrow> None)
      else if rest = [] \<and> d = ord CHR ''='' then
        (case (b64_value a, b64_value b, b64_value c) of
           (Some x, Some y, Some z) \<Rightarrow> Some [x * 4 + y div 16, y mod 16 * 16 + z div 4]
         | _ \<Rightarrow> None)
      else
        (case (b64_value a, b64_value b, b64_value c, b64_value d) of
           (Some x, Some y, Some z, Some w) \<Rightarrow>
             map_option
               ((@) [x * 4 + y div 16, y mod 16 * 16 + z div 4, z mod 4 * 64 + w])
               (std_b64decode rest)
         | _ \<Rightarrow> None))"
| "std_b64decode _ = None"

section \<open>Folder namer\<close>

text \<open>
  \<open>str.strip()\<close> removes the leading and trailing characters for which
  \<open>str.isspace\<close> holds; \<open>is_space\<close> lists these code points.
\<close>

definition is_space :: "nat \<Rightarrow> bool" where
  "is_space c \<longleftrightarrow>
     (0x09 \<le> c \<and> c \<le> 0x0D) \<or> (0x1C \<le> c \<and> c \<le> 0x20) \<or> c = 0x85 \<or> c = 0xA0 \<or>
     c = 0x1680 \<or> (0x2000 \<le> c \<and> c \<le> 0x200A) \<or> c = 0x2028 \<or> c = 0x2029 \<or>
     c = 0x202F \<or> c = 0x205F \<or> c = 0x3000"

definition strip :: "pystr \<Rightarrow> pystr" where
  "strip s = rev (dropWhile is_space (rev (dropWhile is_space s)))"

text \<open>
  \<open>re.sub(r'[<>:"/\\|?*]', '_', s)\<close>: every character of the class becomes an
  underscore. The double quote is code point 34 and the backslash code point 92.
\<close>

definition illegal_chars :: "nat list" where
  "illegal_chars =
     [ord CHR ''<'', ord CHR ''>'', ord CHR '':'', 34, ord CHR ''/'', 92, ord CHR ''|'',
      ord CHR ''?'', ord CHR ''*'']"

definition re_sub_illegal :: "pystr \<Rightarrow> pystr" where
  "re_sub_illegal s = map (\<lambda>c. if c \<in> set illegal_chars then ord CHR ''_'' else c) s"

text \<open>
  \<open>re.match(r'^(\d+)\.', s)\<close> followed by \<open>match.group(1)\<close>. On a \<open>str\<close> pattern
  \<open>\d\<close> matches every Unicode decimal digit: the ASCII digits and the decimal digits
  of other scripts. The table of the latter belongs to the interpreter's Unicode
  database, not to the program, and is the parameter \<open>nd\<close>. The pattern matches when the
  run of digits at the start is not empty and a dot follows it.
\<close>

definition is_digit :: "(nat \<Rightarrow> bool) \<Rightarrow> nat \<Rightarrow> bool" where
  "is_digit nd c \<longleftrightarrow> (ord CHR ''0'' \<le> c \<and> c \<le> ord CHR ''9'') \<or> (128 \<le> c \<and> nd c)"

text \<open>A table without any further digit, for running the program on ASCII file names.\<close>

definition ascii_digits_only :: "nat \<Rightarrow> bool" where
  "ascii_digits_only c = False"

definition re_match_module :: "(nat \<Rightarrow> bool) \<Rightarrow> pystr \<Rightarrow> pystr option" where
  "re_match_module nd s =
     (case dropWhile (is_digit nd) s of
        [] \<Rightarrow> None
      | c # _ \<Rightarrow>
          if takeWhile (is_digit nd) s \<noteq> [] \<and> c = ord CHR ''.''
          then Some (takeWhile (is_digit nd) s) else None)"

text \<open>
  \<open>get_folder_name_from_title\<close>. Both arguments may be \<open>None\<close>. The function's
  debugging output on the console is left out; its result does not depend on it.
\<close>

definition get_folder_name_from_title ::
    "(nat \<Rightarrow> bool) \<Rightarrow> pystr option \<Rightarrow> pystr option \<Rightarrow> pystr" where
  "get_folder_name_from_title nd parent_title file_name =
     (if parent_title \<noteq> None \<and> strip (the parent_title) \<noteq> []
      then re_sub_illegal (strip (the parent_title))
      else if file_name \<noteq> None \<and> the file_name \<noteq> [] \<and> strip (the file_name) \<noteq> []
      then (case re_match_module nd (strip (the file_name)) of
              Some module_number \<Rightarrow> str ''Module '' @ module_number
            | None \<Rightarrow> str ''Other_Materials'')
      else str ''Other_Materials'')"

text \<open>
  Auxiliary notions for the analysis of the search: the pattern matches at the start
  of a text, and a link splits at the leftmost match into the text before it, the
  segment and the rest.
\<close>

definition match_here :: "pystr \<Rightarrow> bool" where
  "match_here l \<longleftrightarrow> (\<exists>r. l = str ''/c/'' @ r \<and> r \<noteq> [] \<and> is_id_char (hd r))"

definition first_match :: "pystr \<Rightarrow> pystr \<Rightarrow> pystr \<Rightarrow> pystr \<Rightarrow> bool" where
  "first_match link pre seg rest \<longleftrightarrow>
     link = pre @ str ''/c/'' @ seg @ rest \<and> seg \<noteq> [] \<and> list_all is_id_char seg \<and>
     (rest = [] \<or> \<not> is_id_char (hd rest)) \<and>
     (\<forall>pre' rest'. link = pre' @ str ''/c/'' @ rest' \<and> length pre' < length pre
        \<longrightarrow> rest' = [] \<or> \<not> is_id_char (hd rest'))"


section \<open>Files, console and remote services\<close>

text \<open>
  The filesystem of a POSIX system (Linux). An entry is a regular file with its content,
  a directory or a symbolic link with its target. The filesystem maps the physical
  location of an entry, the list of names that leads to it from the root directory, to
  the entry; the root directory is the empty list and always exists. Every directory
  can be searched; a refusal of the operating system occurs only where a directory is
  created or a file is opened for writing (see \<open>mkdir_error\<close> and \<open>open_error\<close> below).
\<close>

datatype node = File bytes | Dir | Symlink pystr

type_synonym location = "pystr list"

type_synonym filesystem = "location \<Rightarrow> node option"

text \<open>
  The components of a path are the texts between its slashes; an empty component and
  \<open>.\<close> stand for the directory reached so far. A path that starts with a slash is
  resolved from the root, another path from the working directory.
\<close>

fun split_slash :: "pystr \<Rightarrow> pystr \<Rightarrow> pystr list" where
  "split_slash component [] = [component]"
| "split_slash component (c # cs) =
     (if c = ord CHR ''/'' then component # split_slash [] cs
      else split_slash (component @ [c]) cs)"

definition components :: "pystr \<Rightarrow> pystr list" where
  "components p = split_slash [] p"

definition stays :: "pystr \<Rightarrow> bool" where
  "stays c \<longleftrightarrow> c = [] \<or> c = str ''.''"

definition location_of :: "pystr \<Rightarrow> location" where
  "location_of p = filter (\<lambda>c. \<not> stays c) (components p)"

definition start_of :: "pystr \<Rightarrow> pystr \<Rightarrow> location" where
  "start_of working_directory p =
     (if p \<noteq> [] \<and> hd p = ord CHR ''/'' then [] else location_of working_directory)"

text \<open>
  Path resolution as the kernel does it for \<open>stat\<close>: the components are taken one by
  one from the directory \<open>here\<close>. \<open>..\<close> leads to the parent directory (the root is its
  own parent); a name leads to the entry of that name in \<open>here\<close>. A directory is
  entered; a regular file must be the last component; a symbolic link is replaced by
  the components of its target, and at most 40 links are followed in one resolution
  (the 41st gives \<open>ELOOP\<close>). The result is the entry found together with the number of
  links that may still be followed, or the location of a component that does not exist
  in an existing directory together with the components after it, or the error
  (\<open>NotADirectoryError\<close> and \<open>ELOOP\<close> are \<open>OSError\<close>s without a class of their own
  here).
\<close>

datatype resolution = Found location node nat | Missing location "pystr list" | Failed exn

function walk :: "filesystem \<Rightarrow> nat \<Rightarrow> location \<Rightarrow> pystr list \<Rightarrow> resolution" where
  "walk F links here [] = Found here Dir links"
| "walk F links here (c # rest) =
     (if stays c then walk F links here rest
      else if c = str ''..'' then walk F links (butlast here) rest
      else
        (case F (here @ [c]) of
           None \<Rightarrow> Missing (here @ [c]) rest
         | Some Dir \<Rightarrow> walk F links (here @ [c]) rest
         | Some (File content) \<Rightarrow>
             if rest = [] then Found (here @ [c]) (File content) links else Failed OSError
         | Some (Symlink target) \<Rightarrow>
             if links = 0 then Failed OSError
             else if target = [] then Failed FileNotFoundError
             else walk F (links - 1)
                    (if hd target = ord CHR ''/'' then [] else here)
                    (components target @ rest)))"
  by pat_completeness auto
termination
  by (relation "measures [\<lambda>(F, links, here, rest). links, \<lambda>(F, links, here, rest). length rest]")
    auto

definition resolve :: "pystr \<Rightarrow> filesystem \<Rightarrow> pystr \<Rightarrow> resolution" where
  "resolve working_directory F p =
     (if p = [] then Failed FileNotFoundError
      else walk F 40 (start_of working_directory p) (components p))"

text \<open>
  \<open>os.stat\<close> gives the entry that a path leads to and fails, here with \<open>None\<close>, when
  the resolution does not find one; so a dangling link counts as missing.
  \<open>os.path.exists\<close> and \<open>os.path.isdir\<close> are defined through \<open>os.stat\<close>.
\<close>

definition os_stat :: "pystr \<Rightarrow> filesystem \<Rightarrow> pystr \<Rightarrow> node option" where
  "os_stat working_directory F p =
     (case resolve working_directory F p of Found l entry links \<Rightarrow> Some entry | _ \<Rightarrow> None)"

definition os_path_exists :: "pystr \<Rightarrow> filesystem \<Rightarrow> pystr \<Rightarrow> bool" where
  "os_path_exists working_directory F p \<longleftrightarrow> os_stat working_directory F p \<noteq> None"

definition os_path_isdir :: "pystr \<Rightarrow> filesystem \<Rightarrow> pystr \<Rightarrow> bool" where
  "os_path_isdir working_directory F p \<longleftrightarrow> os_stat working_directory F p = Some Dir"

text \<open>\<open>os.path.join\<close> with two arguments, on a POSIX system.\<close>

definition os_path_join :: "pystr \<Rightarrow> pystr \<Rightarrow> pystr" where
  "os_path_join a b =
     (if b \<noteq> [] \<and> hd b = ord CHR ''/'' then b
      else if a = [] \<or> last a = ord CHR ''/'' then a @ b
      else a @ ord CHR ''/'' # b)"

text \<open>
  The lines that the program prints. The text of an exception and the percentage of a
  progress line are left out.
\<close>

datatype message =
    Attempting_to_create_directory pystr
  | File_already_exists pystr pystr
  | Downloading pystr
  | Downloaded pystr
  | Permission_denied_when_accessing pystr
  | OS_error_when_accessing pystr
  | Error_downloading_file pystr
  | Using_Course_ID pystr
  | Course_found pystr
  | Error_accessing_course
  | All_files_downloaded_to pystr
  | An_error_occurred exn

text \<open>
  What the drive service answers to the successive \<open>next_chunk\<close> calls for a file: a
  chunk with more to come, the last chunk (\<open>done\<close> is true), or an exception.
\<close>

datatype response = Chunk bytes response | Last bytes | Failure exn

text \<open>The classroom data: a material with or without a \<open>driveFile\<close> entry, whose title
  may be missing, and a group (an announcement or a coursework material) whose
  \<open>title\<close> and \<open>materials\<close> entries may be missing.\<close>

datatype material = DriveFile (drive_id: pystr) (drive_title: "pystr option") | OtherMaterial

datatype group = Group (group_title: "pystr option") (group_materials: "material list option")

text \<open>The credentials object with its properties \<open>valid\<close>, \<open>expired\<close> and \<open>refresh_token\<close>.\<close>

datatype credentials =
  Credentials (cred_valid: bool) (cred_expired: bool) (cred_refresh_token: bool)

text \<open>
  The environment of a run: everything that the program reads or calls and that is not
  its own code. An operation that can fail gives the exception it raises.
  \<^item> \<open>unicode_digits\<close>: the table of non-ASCII decimal digits;
  \<^item> \<open>mkdir_error\<close>, \<open>open_error\<close>: whether the operating system refuses to create a
    directory or to open a file for writing at a location, in a given state of the
    filesystem;
  \<^item> \<open>drive_media\<close>: the answers of the drive service for a file identifier;
  \<^item> \<open>prerequisites\<close>: the first exception inside \<open>install_prerequisites\<close>, if any;
  \<^item> \<open>token_json\<close>: \<open>None\<close> when \<open>token.json\<close> is absent, otherwise what loading it gives;
  \<^item> \<open>refresh_error\<close>, \<open>flow_result\<close>, \<open>token_write_error\<close>, \<open>build_error\<close>: the results of
    refreshing the token, of the interactive flow, of writing \<open>token.json\<close> and of building
    the two service objects;
  \<^item> \<open>credentials_json\<close>: whether \<open>credentials.json\<close> exists;
  \<^item> \<open>input_link\<close>, \<open>getcwd\<close>: the line typed at the prompt and the working directory;
  \<^item> \<open>get_course\<close>, \<open>list_announcements\<close>, \<open>list_materials\<close>: the classroom service.
\<close>

record env =
  unicode_digits :: "nat \<Rightarrow> bool"
  mkdir_error :: "filesystem \<Rightarrow> location \<Rightarrow> exn option"
  open_error :: "filesystem \<Rightarrow> location \<Rightarrow> exn option"
  drive_media :: "pystr \<Rightarrow> response"
  prerequisites :: "exn option"
  token_json :: "(exn + credentials) option"
  refresh_error :: "exn option"
  credentials_json :: bool
  flow_result :: "exn + credentials"
  token_write_error :: "exn option"
  build_error :: "exn option"
  input_link :: "exn + pystr"
  getcwd :: pystr
  get_course :: "pystr \<Rightarrow> exn + pystr"
  list_announcements :: "pystr \<Rightarrow> exn + group list"
  list_materials :: "pystr \<Rightarrow> exn + group list"

text \<open>
  The state that a run changes: the filesystem, the lines printed so far, the file
  identifiers of the \<open>next_chunk\<close> requests sent to the drive service, and the
  credentials last written to \<open>token.json\<close>.
\<close>

record world =
  files :: filesystem
  console :: "message list"
  requests :: "pystr list"
  token_written :: "credentials option"

type_synonym 'a action = "world \<Rightarrow> 'a outcome \<times> world"

definition print :: "message \<Rightarrow> unit action" where
  "print m w = (Return (), w\<lparr>console := console w @ [m]\<rparr>)"

text \<open>Sequencing: the second action runs when the first returns; an exception ends both.\<close>

definition then_do :: "'a action \<Rightarrow> ('a \<Rightarrow> 'b action) \<Rightarrow> 'b action" where
  "then_do m f w = (case m w of (Return x, w') \<Rightarrow> f x w' | (Raise e, w') \<Rightarrow> (Raise e, w'))"

text \<open>A \<open>for\<close> loop over a list: an exception in the body ends the loop.\<close>

fun for_each :: "('a \<Rightarrow> unit action) \<Rightarrow> 'a list \<Rightarrow> unit action" where
  "for_each body [] w = (Return (), w)"
| "for_each body (x # xs) w =
     (case body x w of
        (Return _, w') \<Rightarrow> for_each body xs w'
      | (Raise e, w') \<Rightarrow> (Raise e, w'))"

text \<open>
  \<open>os.makedirs(p, exist_ok=True)\<close> goes along the components of \<open>p\<close> and creates the
  directories that are missing unless the operating system refuses. A directory on the
  way is entered, also through a symbolic link that leads to one. Anything else on the
  way is an error: \<open>FileExistsError\<close> at the last component, \<open>NotADirectoryError\<close> or
  \<open>FileNotFoundError\<close> before it. The result is the exception, if any, and the
  filesystem with the directories created so far.
\<close>

fun makedirs_walk ::
    "env \<Rightarrow> filesystem \<Rightarrow> nat \<Rightarrow> location \<Rightarrow> pystr list \<Rightarrow> exn option \<times> filesystem" where
  "makedirs_walk env F links here [] = (None, F)"
| "makedirs_walk env F links here (c # rest) =
     (if stays c then makedirs_walk env F links here rest
      else if c = str ''..'' then makedirs_walk env F links (butlast here) rest
      else
        (case F (here @ [c]) of
           None \<Rightarrow>
             (case mkdir_error env F (here @ [c]) of
                Some e \<Rightarrow> (Some e, F)
              | None \<Rightarrow> makedirs_walk env (F(here @ [c] \<mapsto> Dir)) links (here @ [c]) rest)
         | Some Dir \<Rightarrow> makedirs_walk env F links (here @ [c]) rest
         | Some (File content) \<Rightarrow>
             (Some (if list_all stays rest then FileExistsError else OSError), F)
         | Some (Symlink target) \<Rightarrow>
             (case walk F links here [c] of
                Found there Dir links' \<Rightarrow> makedirs_walk env F links' there rest
              | Found there entry links' \<Rightarrow>
                  (Some (if list_all stays rest then FileExistsError else OSError), F)
              | Missing there after \<Rightarrow>
                  (Some (if list_all stays rest then FileExistsError else FileNotFoundError), F)
              | Failed e \<Rightarrow> (Some (if list_all stays rest then FileExistsError else e), F))))"

definition os_makedirs :: "env \<Rightarrow> pystr \<Rightarrow> filesystem \<Rightarrow> exn option \<times> filesystem" where
  "os_makedirs env p F =
     (if p = [] then (Some FileNotFoundError, F)
      else makedirs_walk env F 40 (start_of (getcwd env) p) (components p))"

definition makedirs :: "env \<Rightarrow> pystr \<Rightarrow> unit action" where
  "makedirs env p w =
     (case os_makedirs env p (files w) of
        (Some e, F) \<Rightarrow> (Raise e, w\<lparr>files := F\<rparr>)
      | (None, F) \<Rightarrow> (Return (), w\<lparr>files := F\<rparr>))"

text \<open>
  \<open>open(p, 'wb')\<close>: the path is resolved as for \<open>os.stat\<close>. A directory there gives
  \<open>IsADirectoryError\<close>; a regular file is emptied and a missing last component is
  created as an empty file, also at the end of a chain of links, unless the operating
  system refuses. A missing component before the last one gives \<open>FileNotFoundError\<close>,
  and a missing component followed by a slash \<open>IsADirectoryError\<close>. The result names the
  location of the file that is written.
\<close>

definition open_wb :: "env \<Rightarrow> pystr \<Rightarrow> filesystem \<Rightarrow> exn + location \<times> filesystem" where
  "open_wb env p F =
     (case resolve (getcwd env) F p of
        Failed e \<Rightarrow> Inl e
      | Found q Dir links \<Rightarrow> Inl OSError
      | Found q (Symlink target) links \<Rightarrow> Inl OSError
      | Found q (File content) links \<Rightarrow>
          (case open_error env F q of
             Some e \<Rightarrow> Inl e
           | None \<Rightarrow> Inr (q, F(q \<mapsto> File [])))
      | Missing q after \<Rightarrow>
          if after \<noteq> [] then Inl (if list_all stays after then OSError else FileNotFoundError)
          else
            (case open_error env F q of
               Some e \<Rightarrow> Inl e
             | None \<Rightarrow> Inr (q, F(q \<mapsto> File []))))"

definition write_chunk :: "location \<Rightarrow> bytes \<Rightarrow> filesystem \<Rightarrow> filesystem" where
  "write_chunk q chunk F =
     F(q \<mapsto> File ((case F q of Some (File old) \<Rightarrow> old | _ \<Rightarrow> []) @ chunk))"


section \<open>File downloader\<close>

text \<open>
  The loop \<open>while not done\<close> of \<open>download_file\<close>: each \<open>next_chunk\<close> call is a request
  to the drive service; its chunk is written to the open file \<open>q\<close> and a progress line
  is printed.
\<close>

fun next_chunks :: "pystr \<Rightarrow> pystr \<Rightarrow> location \<Rightarrow> response \<Rightarrow> unit action" where
  "next_chunks file_id file_name q (Failure e) w =
     (Raise e, w\<lparr>requests := requests w @ [file_id]\<rparr>)"
| "next_chunks file_id file_name q (Last chunk) w =
     (Return (),
      w\<lparr>requests := requests w @ [file_id],
        files := write_chunk q chunk (files w),
        console := console w @ [Downloading file_name]\<rparr>)"
| "next_chunks file_id file_name q (Chunk chunk remaining) w =
     next_chunks file_id file_name q remaining
       (w\<lparr>requests := requests w @ [file_id],
          files := write_chunk q chunk (files w),
          console := console w @ [Downloading file_name]\<rparr>)"

text \<open>
  The three \<open>except\<close> clauses of \<open>download_file\<close>, for an exception \<open>e\<close> of the \<open>try\<close>
  block. The first two print the local variable \<open>file_path\<close>, which is assigned only
  after the directory is prepared: \<open>None\<close> stands for the unassigned variable, and
  reading it raises \<open>UnboundLocalError\<close> out of the handler. An exception that is not
  an instance of \<open>Exception\<close> is not handled.
\<close>

definition except_clauses :: "pystr \<Rightarrow> pystr option \<Rightarrow> exn \<Rightarrow> unit action" where
  "except_clauses file_name file_path e w =
     (if e = PermissionError then
        (case file_path of
           None \<Rightarrow> (Raise UnboundLocalError, w)
         | Some p \<Rightarrow> print (Permission_denied_when_accessing p) w)
      else if is_OSError e then
        (case file_path of
           None \<Rightarrow> (Raise UnboundLocalError, w)
         | Some p \<Rightarrow> print (OS_error_when_accessing p) w)
      else if is_Exception e then print (Error_downloading_file file_name) w
      else (Raise e, w))"

text \<open>
  \<open>download_file(file_id, file_name, drive_service, output_dir)\<close>; the drive service
  is part of the environment.
\<close>

definition download_file :: "env \<Rightarrow> pystr \<Rightarrow> pystr \<Rightarrow> pystr \<Rightarrow> unit action" where
  "download_file env file_id file_name output_dir w =
     (let w1 = w\<lparr>console := console w @ [Attempting_to_create_directory output_dir]\<rparr> in
      case os_makedirs env output_dir (files w1) of
        (Some e, F) \<Rightarrow> except_clauses file_name None e (w1\<lparr>files := F\<rparr>)
      | (None, F) \<Rightarrow>
          let w2 = w1\<lparr>files := F\<rparr> in
          if \<not> os_path_isdir (getcwd env) F output_dir
          then except_clauses file_name None OSError w2
          else
            let file_path = os_path_join output_dir file_name in
            if os_path_exists (getcwd env) F file_path
            then print (File_already_exists file_name file_path) w2
            else
              (case open_wb env file_path F of
                 Inl e \<Rightarrow> except_clauses file_name (Some file_path) e w2
               | Inr (q, F') \<Rightarrow>
                   (case next_chunks file_id file_name q (drive_media env file_id)
                           (w2\<lparr>files := F'\<rparr>) of
                      (Raise e, w3) \<Rightarrow> except_clauses file_name (Some file_path) e w3
                    | (Return _, w3) \<Rightarrow> print (Downloaded file_path) w3)))"


section \<open>Orchestrator\<close>

text \<open>
  \<open>install_prerequisites\<close>: both handlers of the function end with \<open>sys.exit(1)\<close>, so
  every exception inside it that is an instance of \<open>Exception\<close> becomes \<open>SystemExit\<close>.
  The lines it prints are left out.
\<close>

definition install_prerequisites :: "env \<Rightarrow> unit action" where
  "install_prerequisites env w =
     (case prerequisites env of
        None \<Rightarrow> (Return (), w)
      | Some e \<Rightarrow> if is_Exception e then (Raise (SystemExit 1), w) else (Raise e, w))"

text \<open>\<open>authenticate\<close>. The credentials loaded from \<open>token.json\<close> are \<open>None\<close> when the
  file is absent.\<close>

definition authenticate :: "env \<Rightarrow> credentials action" where
  "authenticate env w =
     (case token_json env of
        Some (Inl e) \<Rightarrow> (Raise e, w)
      | loaded \<Rightarrow>
          (let creds = (case loaded of Some (Inr c) \<Rightarrow> Some c | _ \<Rightarrow> None) in
           if creds = None \<or> \<not> cred_valid (the creds) then
             (case
                (if creds \<noteq> None \<and> cred_expired (the creds) \<and> cred_refresh_token (the creds)
                 then (case refresh_error env of
                         Some e \<Rightarrow> Inl e
                       | None \<Rightarrow> Inr (Credentials True False True))
                 else if \<not> credentials_json env then Inl FileNotFoundError
                 else flow_result env)
              of
                Inl e \<Rightarrow> (Raise e, w)
              | Inr c \<Rightarrow>
                  (case token_write_error env of
                     Some e \<Rightarrow> (Raise e, w)
                   | None \<Rightarrow> (Return c, w\<lparr>token_written := Some c\<rparr>)))
           else (Return (the creds), w)))"

text \<open>Calls of the services and of \<open>input\<close>: the result of the environment, as an action.\<close>

definition call :: "exn + 'a \<Rightarrow> 'a action" where
  "call r w = (case r of Inl e \<Rightarrow> (Raise e, w) | Inr x \<Rightarrow> (Return x, w))"

definition build_services :: "env \<Rightarrow> unit action" where
  "build_services env w =
     (case build_error env of Some e \<Rightarrow> (Raise e, w) | None \<Rightarrow> (Return (), w))"

text \<open>\<open>file.get('title', f"file_{file_id}")\<close> and \<open>group.get('title', '')\<close>.\<close>

definition file_name_of :: "pystr \<Rightarrow> pystr option \<Rightarrow> pystr" where
  "file_name_of file_id title = (case title of Some t \<Rightarrow> t | None \<Rightarrow> str ''file_'' @ file_id)"

definition title_of :: "group \<Rightarrow> pystr" where
  "title_of g = (case group_title g of Some t \<Rightarrow> t | None \<Rightarrow> [])"

text \<open>\<open>first_file_name\<close>: the file name of the first material when the list is not
  empty and that material is a drive file, the empty string otherwise.\<close>

definition first_file_name :: "material list \<Rightarrow> pystr" where
  "first_file_name ms =
     (case ms of DriveFile file_id title # _ \<Rightarrow> file_name_of file_id title | _ \<Rightarrow> [])"

text \<open>The body of the loop over the announcements.\<close>

definition announcement_body :: "env \<Rightarrow> pystr \<Rightarrow> group \<Rightarrow> unit action" where
  "announcement_body env output_dir announcement =
     (case group_materials announcement of
        None \<Rightarrow> (\<lambda>w. (Return (), w))
      | Some ms \<Rightarrow>
          (let folder_name =
                 get_folder_name_from_title (unicode_digits env)
                   (Some (title_of announcement)) (Some (first_file_name ms));
               folder_dir = os_path_join output_dir folder_name
           in then_do (makedirs env folder_dir) (\<lambda>_.
                for_each
                  (\<lambda>material.
                     case material of
                       OtherMaterial \<Rightarrow> (\<lambda>w. (Return (), w))
                     | DriveFile file_id title \<Rightarrow>
                         download_file env file_id (file_name_of file_id title) folder_dir)
                  ms)))"

text \<open>The body of the loop over the coursework materials: the folder is computed again
  for every drive file, from the title of the group when it is not blank and from the
  name of the file otherwise.\<close>

definition material_body :: "env \<Rightarrow> pystr \<Rightarrow> group \<Rightarrow> unit action" where
  "material_body env output_dir material =
     (case group_materials material of
        None \<Rightarrow> (\<lambda>w. (Return (), w))
      | Some ms \<Rightarrow>
          (let folder_name =
                 get_folder_name_from_title (unicode_digits env)
                   (Some (title_of material)) (Some (first_file_name ms));
               folder_dir = os_path_join output_dir folder_name
           in then_do (makedirs env folder_dir) (\<lambda>_.
                for_each
                  (\<lambda>item.
                     case item of
                       OtherMaterial \<Rightarrow> (\<lambda>w. (Return (), w))
                     | DriveFile file_id title \<Rightarrow>
                         (let file_name = file_name_of file_id title;
                              folder_dir =
                                (if strip (title_of material) \<noteq> []
                                 then os_path_join output_dir
                                        (get_folder_name_from_title (unicode_digits env)
                                           (Some (title_of material)) (Some []))
                                 else os_path_join output_dir
                                        (get_folder_name_from_title (unicode_digits env)
                                           None (Some file_name)))
                          in then_do (makedirs env folder_dir) (\<lambda>_.
                               download_file env file_id file_name folder_dir)))
                  ms)))"

text \<open>\<open>course['name'].replace(' ', '_').replace('/', '_')\<close>.\<close>

definition course_dir_name :: "pystr \<Rightarrow> pystr" where
  "course_dir_name name =
     map (\<lambda>c. if c = ord CHR '' '' \<or> c = ord CHR ''/'' then ord CHR ''_'' else c) name"

text \<open>
  The \<open>try\<close> block of \<open>main\<close>. The lookup of the course has a handler of its own, which
  prints a line and returns from \<open>main\<close>.
\<close>

definition main_body :: "env \<Rightarrow> unit action" where
  "main_body env =
     then_do (install_prerequisites env) (\<lambda>_.
     then_do (authenticate env) (\<lambda>creds.
     then_do (build_services env) (\<lambda>_.
     then_do (call (input_link env)) (\<lambda>classroom_link.
     then_do (\<lambda>w. (extract_course_id classroom_link, w)) (\<lambda>course_id.
     then_do (print (Using_Course_ID course_id)) (\<lambda>_.
       case get_course env course_id of
         Inl e \<Rightarrow>
           (if is_Exception e then print Error_accessing_course else (\<lambda>w. (Raise e, w)))
       | Inr name \<Rightarrow>
           then_do (print (Course_found name)) (\<lambda>_.
             let output_dir = os_path_join (getcwd env) (course_dir_name name) in
             then_do (makedirs env output_dir) (\<lambda>_.
             then_do (call (list_announcements env course_id)) (\<lambda>announcements.
             then_do (for_each (announcement_body env output_dir) announcements) (\<lambda>_.
             then_do (call (list_materials env course_id)) (\<lambda>materials.
             then_do (for_each (material_body env output_dir) materials) (\<lambda>_.
               print (All_files_downloaded_to output_dir)))))))))))))"

text \<open>\<open>main\<close>: the handler \<open>except Exception\<close> around the block prints a line and lets
  \<open>main\<close> return.\<close>

definition main :: "env \<Rightarrow> unit action" where
  "main env w =
     (case main_body env w of
        (Raise e, w') \<Rightarrow>
          (if is_Exception e then print (An_error_occurred e) w' else (Raise e, w'))
      | (Return x, w') \<Rightarrow> (Return x, w'))"


section \<open>Observations on a run\<close>

text \<open>A filesystem grows into another when the only difference is that directories
  were created at locations without entry.\<close>

definition grows :: "filesystem \<Rightarrow> filesystem \<Rightarrow> bool" where
  "grows F G \<longleftrightarrow> (\<forall>l. G l = F l \<or> (F l = None \<and> G l = Some Dir))"



text \<open>
  An environment raises only instances of \<open>Exception\<close> when no operation after
  \<open>install_prerequisites\<close> raises \<open>KeyboardInterrupt\<close> or \<open>SystemExit\<close>; an action does so
  when every exception it ends with is an instance of \<open>Exception\<close>.
\<close>

fun response_ok :: "response \<Rightarrow> bool" where
  "response_ok (Failure e) = is_Exception e"
| "response_ok (Last chunk) = True"
| "response_ok (Chunk chunk remaining) = response_ok remaining"

definition only_Exceptions :: "env \<Rightarrow> bool" where
  "only_Exceptions env \<longleftrightarrow>
     (\<forall>F p e. mkdir_error env F p = Some e \<longrightarrow> is_Exception e) \<and>
     (\<forall>F p e. open_error env F p = Some e \<longrightarrow> is_Exception e) \<and>
     (\<forall>file_id. response_ok (drive_media env file_id)) \<and>
     (\<forall>e. token_json env = Some (Inl e) \<longrightarrow> is_Exception e) \<and>
     (\<forall>e. refresh_error env = Some e \<longrightarrow> is_Exception e) \<and>
     (\<forall>e. flow_result env = Inl e \<longrightarrow> is_Exception e) \<and>
     (\<forall>e. token_write_error env = Some e \<longrightarrow> is_Exception e) \<and>
     (\<forall>e. build_error env = Some e \<longrightarrow> is_Exception e) \<and>
     (\<forall>e. input_link env = Inl e \<longrightarrow> is_Exception e) \<and>
     (\<forall>course_id e. get_course env course_id = Inl e \<longrightarrow> is_Exception e) \<and>
     (\<forall>course_id e. list_announcements env course_id = Inl e \<longrightarrow> is_Exception e) \<and>
     (\<forall>course_id e. list_materials env course_id = Inl e \<longrightarrow> is_Exception e)"



section \<open>Example runs\<close>

text \<open>
  Concrete environments and filesystems on which the program is run below. In
  \<open>quiet_env\<close> nothing fails: a valid token is present, the course \<open>OS 101\<close> is found
  and has no announcements and no materials, and every drive file is delivered in
  one chunk.
\<close>

definition quiet_env :: env where
  "quiet_env =
     \<lparr>unicode_digits = ascii_digits_only,
      mkdir_error = (\<lambda>F p. None),
      open_error = (\<lambda>F p. None),
      drive_media = (\<lambda>file_id. Last (str ''data'')),
      prerequisites = None,
      token_json = Some (Inr (Credentials True False True)),
      refresh_error = None,
      credentials_json = True,
      flow_result = Inr (Credentials True False True),
      token_write_error = None,
      build_error = None,
      input_link = Inr (str ''https://classroom.google.com/c/NjE3MjM0NTY3ODkw''),
      getcwd = str ''/home'',
      get_course = (\<lambda>course_id. Inr (str ''OS 101'')),
      list_announcements = (\<lambda>course_id. Inr []),
      list_materials = (\<lambda>course_id. Inr [])\<rparr>"

definition start :: "filesystem \<Rightarrow> world" where
  "start F = \<lparr>files = F, console = [], requests = [], token_written = None\<rparr>"

text \<open>A directory \<open>/d\<close> that holds a file, a directory or a dangling link \<open>a.pdf\<close>.\<close>

definition fs_with_file :: filesystem where
  "fs_with_file = [[str ''d''] \<mapsto> Dir, [str ''d'', str ''a.pdf''] \<mapsto> File (str ''old'')]"

definition fs_with_dir :: filesystem where
  "fs_with_dir = [[str ''d''] \<mapsto> Dir, [str ''d'', str ''a.pdf''] \<mapsto> Dir]"

definition fs_with_link :: filesystem where
  "fs_with_link = [[str ''d''] \<mapsto> Dir, [str ''d'', str ''a.pdf''] \<mapsto> Symlink (str ''/t'')]"

text \<open>An environment in which the directory \<open>/p\<close> cannot be created, so that
  \<open>os.makedirs\<close> fails for \<open>/p/x\<close>.\<close>

definition denied_env :: env where
  "denied_env =
     quiet_env\<lparr>mkdir_error :=
       (\<lambda>F l. if l = [str ''p''] then Some PermissionError else None)\<rparr>"

text \<open>An environment in which no file can be opened for writing.\<close>

definition unopenable_env :: env where
  "unopenable_env = quiet_env\<lparr>open_error := (\<lambda>F l. Some FileNotFoundError)\<rparr>"

text \<open>Environments without \<open>credentials.json\<close>: one without token, one with an expired
  token that cannot be refreshed.\<close>

definition no_credentials_env :: env where
  "no_credentials_env = quiet_env\<lparr>token_json := None, credentials_json := False\<rparr>"

definition stale_token_env :: env where
  "stale_token_env =
     quiet_env\<lparr>token_json := Some (Inr (Credentials False True False)),
               credentials_json := False\<rparr>"




text \<open>A course with two announcements, \<open>A\<close> and \<open>B\<close>, each with one file, where the
  folder of the first cannot be created.\<close>

definition two_groups_env :: env where
  "two_groups_env =
     quiet_env\<lparr>
       mkdir_error :=
         (\<lambda>F l. if l = [str ''home'', str ''OS_101'', str ''A'']
                 then Some PermissionError else None),
       list_announcements :=
         (\<lambda>course_id.
            Inr [Group (Some (str ''A'')) (Some [DriveFile (str ''id1'') (Some (str ''a.pdf''))]),
                 Group (Some (str ''B'')) (Some [DriveFile (str ''id2'') (Some (str ''b.pdf''))])])\<rparr>"


section \<open>Properties of the link decoder\<close>

lemma str_c: "str ''/c/'' = [47, 99, 47]" "str ''c/'' = [99, 47]"
  by (simp_all add: str_def)

lemma takeWhile_ne: "takeWhile P ys \<noteq> [] \<longleftrightarrow> ys \<noteq> [] \<and> P (hd ys)"
  by (cases ys) auto

lemma search_cond:
  "(x = ord CHR ''/'' \<and> take 2 xs = str ''c/'' \<and> takeWhile is_id_char (drop 2 xs) \<noteq> []) \<longleftrightarrow>
   match_here (x # xs)"
proof
  assume a: "x = ord CHR ''/'' \<and> take 2 xs = str ''c/'' \<and> takeWhile is_id_char (drop 2 xs) \<noteq> []"
  have "take 2 xs @ drop 2 xs = xs" by simp
  with a have "x # xs = str ''/c/'' @ drop 2 xs"
    by (simp add: str_c)
  moreover from a have "drop 2 xs \<noteq> [] \<and> is_id_char (hd (drop 2 xs))"
    using takeWhile_ne [of is_id_char "drop 2 xs"] by blast
  ultimately show "match_here (x # xs)"
    unfolding match_here_def by blast
next
  assume "match_here (x # xs)"
  then obtain r where r: "x # xs = str ''/c/'' @ r" "r \<noteq> []" "is_id_char (hd r)"
    unfolding match_here_def by blast
  from r(1) have "x = 47" "xs = 99 # 47 # r" by (simp_all add: str_c)
  then show "x = ord CHR ''/'' \<and> take 2 xs = str ''c/'' \<and> takeWhile is_id_char (drop 2 xs) \<noteq> []"
    using r(2,3) by (simp add: str_c takeWhile_ne)
qed

lemma search_step:
  "re_search_course (x # xs) =
     (if match_here (x # xs) then Some (takeWhile is_id_char (drop 2 xs)) else re_search_course xs)"
  by (simp only: re_search_course.simps search_cond)

lemma match_here_drop: "match_here (x # xs) \<Longrightarrow> x # xs = str ''/c/'' @ drop 2 xs"
  unfolding match_here_def by (auto simp: str_c)

lemma first_match_Nil:
  assumes "match_here (x # xs)"
  shows "first_match (x # xs) [] (takeWhile is_id_char (drop 2 xs)) (dropWhile is_id_char (drop 2 xs))"
proof -
  have 1: "x # xs = str ''/c/'' @ drop 2 xs"
    using assms by (rule match_here_drop)
  have 2: "takeWhile is_id_char (drop 2 xs) \<noteq> []"
    using assms search_cond [of x xs] by simp
  have 3: "list_all is_id_char (takeWhile is_id_char (drop 2 xs))"
    unfolding list_all_iff by (auto dest: set_takeWhileD)
  have 4: "dropWhile is_id_char (drop 2 xs) = [] \<or>
        \<not> is_id_char (hd (dropWhile is_id_char (drop 2 xs)))"
    using hd_dropWhile [of is_id_char "drop 2 xs"] by blast
  have 5: "x # xs = [] @ str ''/c/'' @ takeWhile is_id_char (drop 2 xs) @ dropWhile is_id_char (drop 2 xs)"
    using 1 by simp
  show ?thesis
    unfolding first_match_def using 2 3 4 5 by simp
qed

lemma first_match_Cons:
  assumes fm: "first_match xs pre seg rest" and nm: "\<not> match_here (x # xs)"
  shows "first_match (x # xs) (x # pre) seg rest"
proof -
  have first: "rest' = [] \<or> \<not> is_id_char (hd rest')"
    if a: "x # xs = pre' @ str ''/c/'' @ rest'" "length pre' < length (x # pre)" for pre' rest'
  proof (cases pre')
    case Nil
    then have "x # xs = str ''/c/'' @ rest'" using a by simp
    then show ?thesis using nm unfolding match_here_def by blast
  next
    case (Cons y ys)
    then have "xs = ys @ str ''/c/'' @ rest' \<and> length ys < length pre"
      using a by simp
    then show ?thesis using fm unfolding first_match_def by blast
  qed
  have "x # xs = (x # pre) @ str ''/c/'' @ seg @ rest"
    using fm unfolding first_match_def by simp
  moreover have "seg \<noteq> []" "list_all is_id_char seg" "rest = [] \<or> \<not> is_id_char (hd rest)"
    using fm unfolding first_match_def by simp_all
  ultimately show ?thesis
    unfolding first_match_def using first by blast
qed

lemma search_Some_D:
  "re_search_course link = Some seg \<Longrightarrow> \<exists>pre rest. first_match link pre seg rest"
proof (induction link)
  case Nil
  then show ?case by simp
next
  case (Cons x xs)
  show ?case
  proof (cases "match_here (x # xs)")
    case True
    then have "seg = takeWhile is_id_char (drop 2 xs)"
      using Cons.prems by (simp only: search_step if_True option.inject)
    then show ?thesis using first_match_Nil [OF True] by blast
  next
    case False
    then have "re_search_course xs = Some seg"
      using Cons.prems by (simp only: search_step if_False)
    then obtain pre rest where "first_match xs pre seg rest"
      using Cons.IH by blast
    then show ?thesis using first_match_Cons [OF _ False] by blast
  qed
qed

lemma takeWhile_seg:
  assumes "list_all P seg" "rest = [] \<or> \<not> P (hd rest)"
  shows "takeWhile P (seg @ rest) = seg"
proof (cases rest)
  case Nil
  then show ?thesis using assms by (simp add: list_all_iff)
next
  case (Cons c cs)
  then show ?thesis using assms by (simp add: list_all_iff)
qed

lemma search_first_match:
  "first_match link pre seg rest \<Longrightarrow> re_search_course link = Some seg"
proof (induction pre arbitrary: link)
  case Nil
  then have l: "link = 47 # 99 # 47 # seg @ rest" and s: "seg \<noteq> []" "list_all is_id_char seg"
    and r: "rest = [] \<or> \<not> is_id_char (hd rest)"
    by (simp_all add: first_match_def str_c)
  have t: "takeWhile is_id_char (seg @ rest) = seg"
    using s(2) r by (rule takeWhile_seg)
  show ?case unfolding l using t s(1) by (simp add: str_c)
next
  case (Cons p ps)
  define xs where "xs = ps @ str ''/c/'' @ seg @ rest"
  have link: "link = p # xs"
    using Cons.prems by (simp add: first_match_def xs_def)
  have nm: "\<not> match_here (p # xs)"
  proof
    assume "match_here (p # xs)"
    then obtain r where "link = [] @ str ''/c/'' @ r" "r \<noteq> []" "is_id_char (hd r)"
      using link unfolding match_here_def by auto
    moreover have "length ([]::pystr) < length (p # ps)" by simp
    ultimately show False using Cons.prems unfolding first_match_def by blast
  qed
  have first: "rest' = [] \<or> \<not> is_id_char (hd rest')"
    if a: "xs = pre' @ str ''/c/'' @ rest'" "length pre' < length ps" for pre' rest'
  proof -
    have "link = (p # pre') @ str ''/c/'' @ rest' \<and> length (p # pre') < length (p # ps)"
      using link a by simp
    then show ?thesis using Cons.prems unfolding first_match_def by blast
  qed
  have "seg \<noteq> []" "list_all is_id_char seg" "rest = [] \<or> \<not> is_id_char (hd rest)"
    using Cons.prems unfolding first_match_def by simp_all
  then have "first_match xs ps seg rest"
    unfolding first_match_def using first xs_def by blast
  then have "re_search_course xs = Some seg" by (rule Cons.IH)
  then show ?case unfolding link using nm by (simp only: search_step if_False)
qed

lemma search_None_iff:
  "re_search_course link = None \<longleftrightarrow> \<not> (\<exists>pre rest. link = pre @ rest \<and> match_here rest)"
proof (induction link)
  case Nil
  then show ?case by (simp add: match_here_def str_c)
next
  case (Cons x xs)
  show ?case
  proof (cases "match_here (x # xs)")
    case True
    then have "re_search_course (x # xs) \<noteq> None"
      by (simp only: search_step if_True) simp
    moreover from True have "\<exists>pre rest. x # xs = pre @ rest \<and> match_here rest"
      by (metis append_Nil)
    ultimately show ?thesis by blast
  next
    case False
    then have step: "re_search_course (x # xs) = re_search_course xs"
      by (simp only: search_step if_False)
    have "(\<exists>pre rest. x # xs = pre @ rest \<and> match_here rest) \<longleftrightarrow>
          (\<exists>pre rest. xs = pre @ rest \<and> match_here rest)"
    proof
      assume "\<exists>pre rest. x # xs = pre @ rest \<and> match_here rest"
      then obtain pre rest where pr: "x # xs = pre @ rest" "match_here rest"
        by blast
      show "\<exists>pre rest. xs = pre @ rest \<and> match_here rest"
      proof (cases pre)
        case Nil
        then show ?thesis using pr False by simp
      next
        case (Cons y ys)
        then have "xs = ys @ rest" using pr by simp
        then show ?thesis using pr(2) by blast
      qed
    next
      assume "\<exists>pre rest. xs = pre @ rest \<and> match_here rest"
      then obtain pre rest where "xs = pre @ rest" "match_here rest"
        by blast
      then have "x # xs = (x # pre) @ rest \<and> match_here rest"
        by simp
      then show "\<exists>pre rest. x # xs = pre @ rest \<and> match_here rest"
        by blast
    qed
    then show ?thesis using step Cons.IH by simp
  qed
qed

lemma b64_value_eq: "b64_value 61 = None"
  by (simp add: b64_value_def)

lemma a2b_skip:
  "61 \<notin> set cs \<Longrightarrow>
     a2b_base64 q l p cs = a2b_base64 q l 0 [c\<leftarrow>cs. b64_value c \<noteq> None]"
proof (induction cs arbitrary: q l p)
  case Nil
  then show ?case by simp
next
  case (Cons c cs)
  then have c: "c \<noteq> 61" and cs: "61 \<notin> set cs" by auto
  show ?case
  proof (cases "b64_value c")
    case None
    then show ?thesis using c Cons.IH [OF cs, of q l p] by simp
  next
    case (Some v)
    then show ?thesis using c by (simp add: Cons.IH [OF cs])
  qed
qed

lemma a2b_std:
  "\<forall>c\<in>set data. b64_value c \<noteq> None \<Longrightarrow> a2b_base64 0 0 0 data = std_b64decode data"
proof (induction "length data" arbitrary: data rule: less_induct)
  case less
  show ?case
  proof (cases data rule: std_b64decode.cases)
    case 1
    then show ?thesis by simp
  next
    case (2 a b c d rest)
    from less.prems 2 obtain x y z w where v: "b64_value a = Some x" "b64_value b = Some y"
        "b64_value c = Some z" "b64_value d = Some w"
      by auto
    have ne: "a \<noteq> 61" "b \<noteq> 61" "c \<noteq> 61" "d \<noteq> 61"
      using v b64_value_eq by auto
    have "\<forall>c\<in>set rest. b64_value c \<noteq> None" using less.prems 2 by simp
    moreover have "length rest < length data" using 2 by simp
    ultimately have IH: "a2b_base64 0 0 0 rest = std_b64decode rest"
      by (rule less.hyps [rotated])
    show ?thesis
      unfolding 2 using v ne IH by (cases "std_b64decode rest") simp_all
  qed (use less.prems in \<open>auto simp: b64_value_eq split: option.splits\<close>)
qed

lemma id_char_props:
  assumes "is_id_char c"
  shows "c \<noteq> 61" "c < 128" "c \<noteq> 43" "c \<noteq> 47"
    "b64_value c \<noteq> None \<longleftrightarrow> c \<noteq> ord CHR ''-'' \<and> c \<noteq> ord CHR ''_''"
  using assms by (auto simp: is_id_char_def b64_value_def)

lemma b64decode_segment:
  assumes "list_all is_id_char seg"
  shows "b64decode seg = std_b64decode [c\<leftarrow>seg. c \<noteq> ord CHR ''-'' \<and> c \<noteq> ord CHR ''_'']"
proof -
  have all: "\<And>c. c \<in> set seg \<Longrightarrow> is_id_char c"
    using assms by (simp add: list_all_iff)
  have "\<not> list_ex (\<lambda>c. 128 \<le> c) seg"
    using all id_char_props(2) by (fastforce simp: list_ex_iff)
  then have "b64decode seg = a2b_base64 0 0 0 seg"
    by (simp add: b64decode_def)
  also have "\<dots> = a2b_base64 0 0 0 [c\<leftarrow>seg. b64_value c \<noteq> None]"
    using all id_char_props(1) by (intro a2b_skip) blast
  also have "\<dots> = std_b64decode [c\<leftarrow>seg. b64_value c \<noteq> None]"
    by (rule a2b_std) simp
  also have "[c\<leftarrow>seg. b64_value c \<noteq> None] = [c\<leftarrow>seg. c \<noteq> ord CHR ''-'' \<and> c \<noteq> ord CHR ''_'']"
    using all id_char_props(5) by (intro filter_cong) auto
  finally show ?thesis .
qed

lemma search_id_chars: "re_search_course link = Some seg \<Longrightarrow> list_all is_id_char seg"
  using search_Some_D [of link seg] unfolding first_match_def by blast

lemma match_here_iff:
  "(\<exists>pre rest. link = pre @ rest \<and> match_here rest) \<longleftrightarrow>
   (\<exists>pre c rest. link = pre @ str ''/c/'' @ c # rest \<and> is_id_char c)"
proof
  assume "\<exists>pre rest. link = pre @ rest \<and> match_here rest"
  then obtain pre r where "link = pre @ str ''/c/'' @ r" "r \<noteq> []" "is_id_char (hd r)"
    unfolding match_here_def by blast
  then have "link = pre @ str ''/c/'' @ hd r # tl r \<and> is_id_char (hd r)" by simp
  then show "\<exists>pre c rest. link = pre @ str ''/c/'' @ c # rest \<and> is_id_char c" by blast
next
  assume "\<exists>pre c rest. link = pre @ str ''/c/'' @ c # rest \<and> is_id_char c"
  then obtain pre c rest where "link = pre @ str ''/c/'' @ c # rest" "is_id_char c" by blast
  then have "link = pre @ (str ''/c/'' @ c # rest) \<and> match_here (str ''/c/'' @ c # rest)"
    unfolding match_here_def by simp
  then show "\<exists>pre rest. link = pre @ rest \<and> match_here rest" by blast
qed

text \<open>
  Claim C1, as amended. \<open>extract_course_id\<close> raises the invalid-link error exactly when
  the link has no \<open>/c/\<close> followed by a character of \<open>[A-Za-z0-9_-]\<close>. Otherwise it
  drops the characters \<open>-\<close> and \<open>_\<close> from the extracted segment and decodes what
  remains as standard base64 and then as UTF-8: it returns the decoded string, and it
  raises the decoding error when what remains is not valid standard base64 or the bytes
  are not valid UTF-8.
\<close>

theorem extract_course_id_decodes:
  "(re_search_course link = None \<longleftrightarrow>
      \<not> (\<exists>pre c rest. link = pre @ str ''/c/'' @ c # rest \<and> is_id_char c)) \<and>
   (re_search_course link = None \<longrightarrow>
      extract_course_id link = Raise (ValueError Invalid_Google_Classroom_link)) \<and>
   (\<forall>seg. re_search_course link = Some seg \<longrightarrow>
      extract_course_id link =
        (case std_b64decode [c\<leftarrow>seg. c \<noteq> ord CHR ''-'' \<and> c \<noteq> ord CHR ''_''] of
           None \<Rightarrow> Raise (ValueError Failed_to_decode_course_ID)
         | Some raw \<Rightarrow>
             (case utf8_decode raw of
                None \<Rightarrow> Raise (ValueError Failed_to_decode_course_ID)
              | Some decoded_id \<Rightarrow> Return decoded_id)))"
proof (intro conjI allI impI)
  show "re_search_course link = None \<longleftrightarrow>
      \<not> (\<exists>pre c rest. link = pre @ str ''/c/'' @ c # rest \<and> is_id_char c)"
    using search_None_iff [of link] match_here_iff [of link] by simp
next
  assume "re_search_course link = None"
  then show "extract_course_id link = Raise (ValueError Invalid_Google_Classroom_link)"
    by (simp add: extract_course_id_def)
next
  fix seg
  assume s: "re_search_course link = Some seg"
  then have "b64decode seg = std_b64decode [c\<leftarrow>seg. c \<noteq> ord CHR ''-'' \<and> c \<noteq> ord CHR ''_'']"
    by (intro b64decode_segment search_id_chars)
  then show "extract_course_id link =
        (case std_b64decode [c\<leftarrow>seg. c \<noteq> ord CHR ''-'' \<and> c \<noteq> ord CHR ''_''] of
           None \<Rightarrow> Raise (ValueError Failed_to_decode_course_ID)
         | Some raw \<Rightarrow>
             (case utf8_decode raw of
                None \<Rightarrow> Raise (ValueError Failed_to_decode_course_ID)
              | Some decoded_id \<Rightarrow> Return decoded_id))"
    using s by (simp only: extract_course_id_def decode_course_id_def option.case)
qed

lemmas link_eval = str_def is_id_char_def b64_value_def is_cont_def

text \<open>The theorem at a link as the classroom service produces them.\<close>

theorem extract_course_id_decodes_witness:
  "re_search_course (str ''https://classroom.google.com/c/NjE3MjM0NTY3ODkw'')
     = Some (str ''NjE3MjM0NTY3ODkw'') \<and>
   extract_course_id (str ''https://classroom.google.com/c/NjE3MjM0NTY3ODkw'')
     = Return (str ''617234567890'')"
proof -
  have h: "re_search_course (str ''https://classroom.google.com/c/NjE3MjM0NTY3ODkw'')
     = Some (str ''NjE3MjM0NTY3ODkw'')"
    by (simp add: link_eval)
  have d: "std_b64decode [c\<leftarrow>str ''NjE3MjM0NTY3ODkw'' . c \<noteq> ord CHR ''-'' \<and> c \<noteq> ord CHR ''_'']
     = Some (str ''617234567890'')"
    by (simp add: link_eval)
  have u: "utf8_decode (str ''617234567890'') = Some (str ''617234567890'')"
    by (simp add: link_eval)
  from extract_course_id_decodes [of "str ''https://classroom.google.com/c/NjE3MjM0NTY3ODkw''"] h
  have "extract_course_id (str ''https://classroom.google.com/c/NjE3MjM0NTY3ODkw'') =
        (case std_b64decode [c\<leftarrow>str ''NjE3MjM0NTY3ODkw'' . c \<noteq> ord CHR ''-'' \<and> c \<noteq> ord CHR ''_''] of
           None \<Rightarrow> Raise (ValueError Failed_to_decode_course_ID)
         | Some raw \<Rightarrow>
             (case utf8_decode raw of
                None \<Rightarrow> Raise (ValueError Failed_to_decode_course_ID)
              | Some decoded_id \<Rightarrow> Return decoded_id))"
    by blast
  then show ?thesis using h by (simp only: d u option.case simp_thms)
qed

text \<open>
  Claim C1 as stated fails: the segment \<open>QU-JD\<close> is not valid standard base64, yet no
  decoding error is raised. The decoder skips the \<open>-\<close> and returns \<open>ABC\<close>.
\<close>

theorem extract_course_id_lenient_counterexample:
  "re_search_course (str ''https://classroom.google.com/c/QU-JD'') = Some (str ''QU-JD'') \<and>
   std_b64decode (str ''QU-JD'') = None \<and>
   extract_course_id (str ''https://classroom.google.com/c/QU-JD'') = Return (str ''ABC'')"
  by (simp add: extract_course_id_def decode_course_id_def b64decode_def link_eval)

text \<open>
  Claim C9. The segment that \<open>extract_course_id\<close> hands to the decoder is the run of
  characters of \<open>[A-Za-z0-9_-]\<close> after the leftmost \<open>/c/\<close> that is followed by such a
  character: the run is not empty, it ends at the end of the link or before a character
  outside the class, and no earlier position of the link matches. Hence \<open>+\<close>, \<open>/\<close> and
  \<open>=\<close> never occur in the text passed to the base64 decoder.
\<close>

theorem extract_course_id_segment:
  "(re_search_course link = Some seg \<longleftrightarrow>
      (\<exists>pre rest.
         link = pre @ str ''/c/'' @ seg @ rest \<and> seg \<noteq> [] \<and> list_all is_id_char seg \<and>
         (rest = [] \<or> \<not> is_id_char (hd rest)) \<and>
         (\<forall>pre' rest'. link = pre' @ str ''/c/'' @ rest' \<and> length pre' < length pre
            \<longrightarrow> rest' = [] \<or> \<not> is_id_char (hd rest')))) \<and>
   (re_search_course link = Some seg \<longrightarrow>
      extract_course_id link = decode_course_id seg \<and>
      ord CHR ''+'' \<notin> set seg \<and> ord CHR ''/'' \<notin> set seg \<and> ord CHR ''='' \<notin> set seg)"
proof (intro conjI impI)
  show "re_search_course link = Some seg \<longleftrightarrow>
      (\<exists>pre rest.
         link = pre @ str ''/c/'' @ seg @ rest \<and> seg \<noteq> [] \<and> list_all is_id_char seg \<and>
         (rest = [] \<or> \<not> is_id_char (hd rest)) \<and>
         (\<forall>pre' rest'. link = pre' @ str ''/c/'' @ rest' \<and> length pre' < length pre
            \<longrightarrow> rest' = [] \<or> \<not> is_id_char (hd rest')))"
    using search_Some_D [of link seg] search_first_match [of link _ seg]
    unfolding first_match_def by blast
next
  assume s: "re_search_course link = Some seg"
  then show "extract_course_id link = decode_course_id seg"
    by (simp add: extract_course_id_def)
  have "\<And>c. c \<in> set seg \<Longrightarrow> is_id_char c"
    using search_id_chars [OF s] by (simp add: list_all_iff)
  then have "\<And>c. c \<in> set seg \<Longrightarrow> c \<noteq> 43 \<and> c \<noteq> 47 \<and> c \<noteq> 61"
    using id_char_props by blast
  then show "ord CHR ''+'' \<notin> set seg" "ord CHR ''/'' \<notin> set seg" "ord CHR ''='' \<notin> set seg"
    by auto
qed

text \<open>The theorem at a link whose first \<open>/c/\<close> is followed by a slash.\<close>

theorem extract_course_id_segment_witness:
  "re_search_course (str ''x/c//c/QUJD+Zg=='') = Some (str ''QUJD'') \<and>
   extract_course_id (str ''x/c//c/QUJD+Zg=='') = decode_course_id (str ''QUJD'') \<and>
   ord CHR ''+'' \<notin> set (str ''QUJD'')"
proof -
  have h: "re_search_course (str ''x/c//c/QUJD+Zg=='') = Some (str ''QUJD'')"
    by (simp add: link_eval)
  show ?thesis
    using extract_course_id_segment [of "str ''x/c//c/QUJD+Zg==''" "str ''QUJD''"] h by blast
qed

section \<open>Properties of the folder namer\<close>

lemmas namer_eval = get_folder_name_from_title_def strip_def is_space_def re_sub_illegal_def
  illegal_chars_def re_match_module_def is_digit_def str_def

lemma strip_Nil: "strip [] = []"
  by (simp add: strip_def)

lemma dot_no_digit: "\<not> is_digit nd (ord CHR ''.'')"
  by (simp add: is_digit_def)

lemma re_match_module_iff:
  "re_match_module nd s = Some N \<longleftrightarrow>
     (\<exists>rest. s = N @ ord CHR ''.'' # rest \<and> N \<noteq> [] \<and> list_all (is_digit nd) N)"
proof
  assume a: "re_match_module nd s = Some N"
  then obtain c r where d: "dropWhile (is_digit nd) s = c # r"
    by (cases "dropWhile (is_digit nd) s") (simp_all add: re_match_module_def)
  with a have N: "takeWhile (is_digit nd) s = N" "N \<noteq> []" "c = ord CHR ''.''"
    by (auto simp: re_match_module_def split: if_splits)
  have "s = takeWhile (is_digit nd) s @ dropWhile (is_digit nd) s" by simp
  then have "s = N @ ord CHR ''.'' # r" using d N by simp
  moreover have "list_all (is_digit nd) N"
    unfolding N(1) [symmetric] list_all_iff by (auto dest: set_takeWhileD)
  ultimately show "\<exists>rest. s = N @ ord CHR ''.'' # rest \<and> N \<noteq> [] \<and> list_all (is_digit nd) N"
    using N(2) by blast
next
  assume "\<exists>rest. s = N @ ord CHR ''.'' # rest \<and> N \<noteq> [] \<and> list_all (is_digit nd) N"
  then obtain rest where s: "s = N @ ord CHR ''.'' # rest" and N: "N \<noteq> []" "list_all (is_digit nd) N"
    by blast
  have t: "takeWhile (is_digit nd) s = N"
    unfolding s using N(2) dot_no_digit [of nd] by (simp add: list_all_iff)
  have d: "dropWhile (is_digit nd) s = ord CHR ''.'' # rest"
    unfolding s using N(2) dot_no_digit [of nd] by (simp add: list_all_iff)
  show "re_match_module nd s = Some N"
    unfolding re_match_module_def t d using N(1) by simp
qed

lemma re_sub_illegal_eq:
  "re_sub_illegal s =
     map (\<lambda>c. if c \<in> set (str ''<>:/|?*'') \<or> c = 34 \<or> c = 92 then ord CHR ''_'' else c) s"
  unfolding re_sub_illegal_def illegal_chars_def str_def by (intro map_cong refl) auto

text \<open>
  Claim C2, as amended. For a parent title that is not empty after trimming, the folder
  namer returns the trimmed title with every character among \<open><>:"/\|?*\<close> replaced
  by an underscore, whatever the file name is. Spaces are not among these characters:
  for the title \<open>Week 1: Intro\<close> the result is \<open>Week 1_ Intro\<close>.
\<close>

theorem get_folder_name_sanitizes_title:
  "(strip t \<noteq> [] \<longrightarrow>
      get_folder_name_from_title nd (Some t) file_name =
        map (\<lambda>c. if c \<in> set (str ''<>:/|?*'') \<or> c = 34 \<or> c = 92 then ord CHR ''_'' else c)
          (strip t)) \<and>
   get_folder_name_from_title nd (Some (str ''Week 1: Intro'')) (Some (str '''')) =
     str ''Week 1_ Intro''"
proof
  show "strip t \<noteq> [] \<longrightarrow>
      get_folder_name_from_title nd (Some t) file_name =
        map (\<lambda>c. if c \<in> set (str ''<>:/|?*'') \<or> c = 34 \<or> c = 92 then ord CHR ''_'' else c)
          (strip t)"
    by (simp add: get_folder_name_from_title_def re_sub_illegal_eq)
  show "get_folder_name_from_title nd (Some (str ''Week 1: Intro'')) (Some (str '''')) =
     str ''Week 1_ Intro''"
    by (simp add: namer_eval)
qed

text \<open>The theorem at a title with surrounding blanks and three replaced characters.\<close>

theorem get_folder_name_sanitizes_title_witness:
  "strip (str '' a/b: c? '') = str ''a/b: c?'' \<and>
   get_folder_name_from_title ascii_digits_only (Some (str '' a/b: c? '')) None = str ''a_b_ c_''"
proof -
  have h: "strip (str '' a/b: c? '') = str ''a/b: c?''"
    by (simp add: strip_def is_space_def str_def)
  then have "strip (str '' a/b: c? '') \<noteq> []"
    by (simp add: str_def)
  with get_folder_name_sanitizes_title [of "str '' a/b: c? ''" ascii_digits_only None]
  have "get_folder_name_from_title ascii_digits_only (Some (str '' a/b: c? '')) None =
        map (\<lambda>c. if c \<in> set (str ''<>:/|?*'') \<or> c = 34 \<or> c = 92 then ord CHR ''_'' else c)
          (strip (str '' a/b: c? ''))"
    by blast
  then show ?thesis unfolding h by (simp add: str_def)
qed

text \<open>
  Claim C2 as stated fails at its own example: the result keeps the two spaces and is
  not \<open>Week_1__Intro\<close>.
\<close>

theorem get_folder_name_week_counterexample:
  "get_folder_name_from_title ascii_digits_only (Some (str ''Week 1: Intro'')) (Some (str ''''))
     = str ''Week 1_ Intro'' \<and>
   get_folder_name_from_title ascii_digits_only (Some (str ''Week 1: Intro'')) (Some (str ''''))
     \<noteq> str ''Week_1__Intro''"
  by (simp add: namer_eval)

text \<open>
  Claim C5. Let the parent title be absent, empty or blank. If the trimmed file name
  starts with a non-empty run \<open>N\<close> of decimal digits followed by a dot, the folder namer
  returns \<open>Module N\<close>; in every other case it returns \<open>Other_Materials\<close>. The two
  examples of the specification are instances.
\<close>

theorem get_folder_name_module_or_fallback:
  "(parent_title = None \<or> strip (the parent_title) = [] \<longrightarrow>
      (\<forall>f N rest.
          file_name = Some f \<and> strip f = N @ ord CHR ''.'' # rest \<and> N \<noteq> [] \<and>
          list_all (is_digit nd) N \<longrightarrow>
          get_folder_name_from_title nd parent_title file_name = str ''Module '' @ N) \<and>
      (\<not> (\<exists>f N rest.
          file_name = Some f \<and> strip f = N @ ord CHR ''.'' # rest \<and> N \<noteq> [] \<and>
          list_all (is_digit nd) N) \<longrightarrow>
          get_folder_name_from_title nd parent_title file_name = str ''Other_Materials'')) \<and>
   get_folder_name_from_title nd (Some (str '''')) (Some (str ''3.2 Scheduling.pdf'')) =
     str ''Module 3'' \<and>
   get_folder_name_from_title nd (Some (str '''')) (Some (str '''')) = str ''Other_Materials''"
proof (intro conjI impI allI)
  fix f N rest
  assume blank: "parent_title = None \<or> strip (the parent_title) = []"
    and m: "file_name = Some f \<and> strip f = N @ ord CHR ''.'' # rest \<and> N \<noteq> [] \<and>
          list_all (is_digit nd) N"
  then have r: "re_match_module nd (strip f) = Some N"
    using re_match_module_iff [of nd "strip f" N] by blast
  have "f \<noteq> []" using m strip_Nil by auto
  moreover have "strip f \<noteq> []" using m by simp
  ultimately show "get_folder_name_from_title nd parent_title file_name = str ''Module '' @ N"
    using blank m r by (auto simp: get_folder_name_from_title_def)
next
  assume blank: "parent_title = None \<or> strip (the parent_title) = []"
    and n: "\<not> (\<exists>f N rest.
          file_name = Some f \<and> strip f = N @ ord CHR ''.'' # rest \<and> N \<noteq> [] \<and>
          list_all (is_digit nd) N)"
  have "re_match_module nd (strip f) = None" if "file_name = Some f" for f
  proof (cases "re_match_module nd (strip f)")
    case None
    then show ?thesis .
  next
    case (Some N)
    then show ?thesis using re_match_module_iff [of nd "strip f" N] that n by blast
  qed
  then show "get_folder_name_from_title nd parent_title file_name = str ''Other_Materials''"
    using blank by (auto simp: get_folder_name_from_title_def)
next
  show "get_folder_name_from_title nd (Some (str '''')) (Some (str ''3.2 Scheduling.pdf'')) =
     str ''Module 3''"
    by (simp add: namer_eval)
  show "get_folder_name_from_title nd (Some (str '''')) (Some (str '''')) = str ''Other_Materials''"
    by (simp add: namer_eval)
qed

text \<open>The theorem at a blank title with a numbered file name, and at a file name without number.\<close>

theorem get_folder_name_module_or_fallback_witness:
  "get_folder_name_from_title ascii_digits_only (Some (str ''  '')) (Some (str '' 12.4 Paging.pdf''))
     = str ''Module 12'' \<and>
   get_folder_name_from_title ascii_digits_only None (Some (str ''notes.pdf''))
     = str ''Other_Materials''"
proof -
  have b: "Some (str ''  '') = None \<or> strip (the (Some (str ''  ''))) = []"
    by (simp add: strip_def is_space_def str_def)
  have s: "strip (str '' 12.4 Paging.pdf'') = str ''12'' @ ord CHR ''.'' # str ''4 Paging.pdf''"
    by (simp add: strip_def is_space_def str_def)
  have d: "str ''12'' \<noteq> [] \<and> list_all (is_digit ascii_digits_only) (str ''12'')"
    by (simp add: is_digit_def str_def)
  have 1: "get_folder_name_from_title ascii_digits_only (Some (str ''  ''))
      (Some (str '' 12.4 Paging.pdf'')) = str ''Module '' @ str ''12''"
    using get_folder_name_module_or_fallback
      [of "Some (str ''  '')" "Some (str '' 12.4 Paging.pdf'')" ascii_digits_only] b s d
    by blast
  have n: "\<not> (\<exists>f N rest.
          Some (str ''notes.pdf'') = Some f \<and> strip f = N @ ord CHR ''.'' # rest \<and> N \<noteq> [] \<and>
          list_all (is_digit ascii_digits_only) N)"
  proof
    assume "\<exists>f N rest.
          Some (str ''notes.pdf'') = Some f \<and> strip f = N @ ord CHR ''.'' # rest \<and> N \<noteq> [] \<and>
          list_all (is_digit ascii_digits_only) N"
    then obtain N rest where "strip (str ''notes.pdf'') = N @ ord CHR ''.'' # rest" "N \<noteq> []"
        "list_all (is_digit ascii_digits_only) N"
      by auto
    then have "is_digit ascii_digits_only (hd (strip (str ''notes.pdf'')))"
      by (cases N) auto
    then show False
      by (simp add: strip_def is_space_def str_def is_digit_def ascii_digits_only_def)
  qed
  have 2: "get_folder_name_from_title ascii_digits_only None (Some (str ''notes.pdf''))
     = str ''Other_Materials''"
    using get_folder_name_module_or_fallback
      [of None "Some (str ''notes.pdf'')" ascii_digits_only] n
    by blast
  show ?thesis using 1 2 by (simp add: str_def)
qed

section \<open>Properties of the file downloader\<close>

lemma grows_refl: "grows F F"
  by (simp add: grows_def)

lemma grows_trans: "grows F G \<Longrightarrow> grows G H \<Longrightarrow> grows F H"
  unfolding grows_def by (metis option.distinct(1))

lemma grows_mkdir: "F l = None \<Longrightarrow> grows F (F(l \<mapsto> Dir))"
  by (simp add: grows_def)

lemma grows_Some: "grows F G \<Longrightarrow> F l = Some entry \<Longrightarrow> G l = Some entry"
  unfolding grows_def by (metis option.distinct(1))


lemma walk_grows:
  "walk F links here rest = Found l entry links' \<Longrightarrow> grows F G \<Longrightarrow>
     walk G links here rest = Found l entry links'"
proof (induction F links here rest rule: walk.induct)
  case (1 F links here)
  then show ?case by simp
next
  case (2 F links here c rest)
  show ?case
  proof (cases "stays c")
    case True
    then show ?thesis using 2 by simp
  next
    case ns: False
    show ?thesis
    proof (cases "c = str ''..''")
      case True
      then show ?thesis using 2 ns by simp
    next
      case nd: False
      show ?thesis
      proof (cases "F (here @ [c])")
        case None
        then show ?thesis using "2.prems" ns nd by simp
      next
        case (Some entry')
        then have G: "G (here @ [c]) = Some entry'"
          using "2.prems"(2) grows_Some by blast
        show ?thesis
        proof (cases entry')
          case (File content)
          then show ?thesis using "2.prems" ns nd Some G by (simp split: if_splits)
        next
          case Dir
          then show ?thesis using 2 ns nd Some G by simp
        next
          case (Symlink target)
          show ?thesis
          proof (cases "links = 0 \<or> target = []")
            case True
            then show ?thesis using "2.prems" ns nd Some Symlink by (auto split: if_splits)
          next
            case False
            then show ?thesis
              using "2.IH"(4) [OF ns nd Some Symlink] "2.prems" ns nd Some G Symlink
              by simp
          qed
        qed
      qed
    qed
  qed
qed

lemma walk_append:
  "walk F links here xs = Found l Dir links' \<Longrightarrow>
     walk F links here (xs @ ys) = walk F links' l ys"
proof (induction F links here xs rule: walk.induct)
  case (1 F links here)
  then show ?case by simp
next
  case (2 F links here c rest)
  show ?case
  proof (cases "stays c")
    case True
    then show ?thesis using 2 by simp
  next
    case ns: False
    show ?thesis
    proof (cases "c = str ''..''")
      case True
      then show ?thesis using 2 ns by simp
    next
      case nd: False
      show ?thesis
      proof (cases "F (here @ [c])")
        case None
        then show ?thesis using "2.prems" ns nd by simp
      next
        case (Some entry')
        show ?thesis
        proof (cases entry')
          case (File content)
          then show ?thesis using "2.prems" ns nd Some by (simp split: if_splits)
        next
          case Dir
          then show ?thesis using 2 ns nd Some by simp
        next
          case (Symlink target)
          show ?thesis
          proof (cases "links = 0 \<or> target = []")
            case True
            then show ?thesis using "2.prems" ns nd Some Symlink by (auto split: if_splits)
          next
            case False
            then show ?thesis
              using "2.IH"(4) [OF ns nd Some Symlink] "2.prems" ns nd Some Symlink
              by simp
          qed
        qed
      qed
    qed
  qed
qed

text \<open>A resolution that may follow \<open>n\<close> links follows a chain of \<open>n\<close> links and
  fails at the next one; shown here for one link.\<close>

lemma walk_follows_as_many_links:
  "walk [[str ''a''] \<mapsto> Symlink (str ''/b''), [str ''b''] \<mapsto> Dir] 1 [] [str ''a'']
     = Found [str ''b''] Dir 0"
  "walk [[str ''a''] \<mapsto> Symlink (str ''/b''), [str ''b''] \<mapsto> Symlink (str ''/c''),
         [str ''c''] \<mapsto> Dir] 1 [] [str ''a''] = Failed OSError"
  by (simp_all add: components_def stays_def str_def)

lemma makedirs_walk_grows:
  "makedirs_walk env F links here rest = (x, F') \<Longrightarrow> grows F F'"
proof (induction rest arbitrary: F links here)
  case Nil
  then show ?case by (simp add: grows_refl)
next
  case (Cons c rest)
  show ?case
  proof (cases "stays c \<or> c = str ''..''")
    case True
    then show ?thesis using Cons by (auto split: if_splits)
  next
    case False
    then have ns: "\<not> stays c" and nd: "c \<noteq> str ''..''" by simp_all
    show ?thesis
    proof (cases "F (here @ [c])")
      case None
      show ?thesis
      proof (cases "mkdir_error env F (here @ [c])")
        case (Some e)
        then show ?thesis using Cons.prems ns nd None by (simp add: grows_refl)
      next
        case no_error: None
        then have "makedirs_walk env (F(here @ [c] \<mapsto> Dir)) links (here @ [c]) rest = (x, F')"
          using Cons.prems ns nd None by simp
        then have "grows (F(here @ [c] \<mapsto> Dir)) F'" by (rule Cons.IH)
        then show ?thesis
          using grows_mkdir [where F = F and l = "here @ [c]"] None grows_trans by blast
      qed
    next
      case (Some entry)
      show ?thesis
      proof (cases entry)
        case (File content)
        then show ?thesis using Cons.prems ns nd Some by (simp add: grows_refl)
      next
        case Dir
        then show ?thesis using Cons ns nd Some by simp
      next
        case (Symlink target)
        then show ?thesis
          using Cons ns nd Some
          by (auto simp: grows_refl split: resolution.splits node.splits)
      qed
    qed
  qed
qed

lemma makedirs_walk_isdir:
  "makedirs_walk env F links here rest = (None, F') \<Longrightarrow> grows F' G \<Longrightarrow>
     \<exists>l links'. walk G links here rest = Found l Dir links'"
proof (induction rest arbitrary: F links here)
  case Nil
  then show ?case by simp
next
  case (Cons c rest)
  have FG: "grows F G"
    using makedirs_walk_grows [OF Cons.prems(1)] Cons.prems(2) grows_trans by blast
  show ?case
  proof (cases "stays c \<or> c = str ''..''")
    case True
    then show ?thesis using Cons by (auto split: if_splits)
  next
    case False
    then have ns: "\<not> stays c" and nd: "c \<noteq> str ''..''" by simp_all
    show ?thesis
    proof (cases "F (here @ [c])")
      case None
      show ?thesis
      proof (cases "mkdir_error env F (here @ [c])")
        case (Some e)
        then show ?thesis using Cons.prems ns nd None by simp
      next
        case no_error: None
        then have run: "makedirs_walk env (F(here @ [c] \<mapsto> Dir)) links (here @ [c]) rest = (None, F')"
          using Cons.prems ns nd None by simp
        have "grows (F(here @ [c] \<mapsto> Dir)) G"
          using makedirs_walk_grows [OF run] Cons.prems(2) grows_trans by blast
        then have G: "G (here @ [c]) = Some Dir"
          using grows_Some [of "F(here @ [c] \<mapsto> Dir)" G "here @ [c]" Dir] by simp
        from Cons.IH [OF run Cons.prems(2)] show ?thesis
          using ns nd G by simp
      qed
    next
      case (Some entry)
      then have G: "G (here @ [c]) = Some entry"
        using FG grows_Some by blast
      show ?thesis
      proof (cases entry)
        case (File content)
        then show ?thesis using Cons.prems ns nd Some by simp
      next
        case Dir
        then show ?thesis using Cons ns nd Some G by simp
      next
        case (Symlink target)
        from Cons.prems(1) ns nd Some Symlink
        obtain there links' where w: "walk F links here [c] = Found there Dir links'"
          and run: "makedirs_walk env F links' there rest = (None, F')"
          by (auto split: resolution.splits node.splits)
        have "walk G links here [c] = Found there Dir links'"
          using w FG by (rule walk_grows)
        then have "walk G links here ([c] @ rest) = walk G links' there rest"
          by (rule walk_append)
        then show ?thesis using Cons.IH [OF run Cons.prems(2)] by simp
      qed
    qed
  qed
qed

lemma makedirs_grows: "os_makedirs env p F = (x, F') \<Longrightarrow> grows F F'"
  by (auto simp: os_makedirs_def grows_refl split: if_splits dest: makedirs_walk_grows)

lemma makedirs_isdir:
  assumes "os_makedirs env p F = (None, F')"
  shows "os_path_isdir (getcwd env) F' p"
proof -
  from assms have p: "p \<noteq> []"
    and run: "makedirs_walk env F 40 (start_of (getcwd env) p) (components p) = (None, F')"
    by (auto simp: os_makedirs_def split: if_splits)
  from makedirs_walk_isdir [OF run grows_refl]
  show ?thesis using p by (auto simp: os_path_isdir_def os_stat_def resolve_def)
qed

lemma stat_grows:
  assumes "grows F G" and "os_stat wd F p = Some entry"
  shows "os_stat wd G p = Some entry"
proof -
  from assms(2) obtain l links where p: "p \<noteq> []"
    and "walk F 40 (start_of wd p) (components p) = Found l entry links"
    by (auto simp: os_stat_def resolve_def split: if_splits resolution.splits)
  then have "walk G 40 (start_of wd p) (components p) = Found l entry links"
    using assms(1) walk_grows by blast
  then show ?thesis using p by (simp add: os_stat_def resolve_def)
qed

lemma makedirs_stat:
  "os_makedirs env p F = (x, F') \<Longrightarrow> os_stat wd F q = Some entry \<Longrightarrow>
     os_stat wd F' q = Some entry"
  using makedirs_grows stat_grows by blast

lemma except_clauses_frame:
  "except_clauses file_name file_path e w = (r, w') \<Longrightarrow>
     files w' = files w \<and> requests w' = requests w"
  by (auto simp: except_clauses_def print_def split: if_splits option.splits)

lemma download_file_exists:
  assumes ex: "os_path_exists (getcwd env) (files w) (os_path_join output_dir file_name)"
    and run: "download_file env file_id file_name output_dir w = (r, w')"
  shows "requests w' = requests w \<and> grows (files w) (files w') \<and>
     (\<forall>F. os_makedirs env output_dir (files w) = (None, F) \<longrightarrow>
        r = Return () \<and>
        console w' = console w @
          [Attempting_to_create_directory output_dir,
           File_already_exists file_name (os_path_join output_dir file_name)])"
proof -
  define w1 where "w1 = w\<lparr>console := console w @ [Attempting_to_create_directory output_dir]\<rparr>"
  have w1: "files w1 = files w" "requests w1 = requests w"
    by (simp_all add: w1_def)
  obtain x F where mk: "os_makedirs env output_dir (files w) = (x, F)"
    by (cases "os_makedirs env output_dir (files w)")
  have g: "grows (files w) F" using mk by (rule makedirs_grows)
  show ?thesis
  proof (cases x)
    case (Some e)
    then have "except_clauses file_name None e (w1\<lparr>files := F\<rparr>) = (r, w')"
      using run mk by (simp add: download_file_def w1_def)
    then have "files w' = F \<and> requests w' = requests w"
      using except_clauses_frame w1 by fastforce
    then show ?thesis using g mk Some by simp
  next
    case None
    have d: "os_path_isdir (getcwd env) F output_dir"
      using mk None makedirs_isdir by blast
    from ex obtain entry where
      "os_stat (getcwd env) (files w) (os_path_join output_dir file_name) = Some entry"
      by (auto simp: os_path_exists_def)
    then have "os_stat (getcwd env) F (os_path_join output_dir file_name) = Some entry"
      using g stat_grows by blast
    then have e: "os_path_exists (getcwd env) F (os_path_join output_dir file_name)"
      by (simp add: os_path_exists_def)
    have "(r, w') = print (File_already_exists file_name (os_path_join output_dir file_name))
                      (w1\<lparr>files := F\<rparr>)"
      using run mk None d e by (simp add: download_file_def w1_def Let_def)
    then have "r = Return ()" "files w' = F" "requests w' = requests w"
      "console w' = console w @
             [Attempting_to_create_directory output_dir,
              File_already_exists file_name (os_path_join output_dir file_name)]"
      by (simp_all add: print_def w1_def)
    then show ?thesis using g mk None by simp
  qed
qed

text \<open>
  Claim C4. When a file exists at the destination path \<open>output_dir/file_name\<close>,
  a call of \<open>download_file\<close> sends no request to the drive service, and afterwards the
  file is there with the same content.
\<close>

theorem download_file_keeps_existing_file:
  assumes "os_stat (getcwd env) (files w) (os_path_join output_dir file_name)
             = Some (File content)"
    and "download_file env file_id file_name output_dir w = (r, w')"
  shows "requests w' = requests w \<and>
         os_stat (getcwd env) (files w') (os_path_join output_dir file_name)
           = Some (File content)"
proof -
  have ex: "os_path_exists (getcwd env) (files w) (os_path_join output_dir file_name)"
    using assms(1) by (simp add: os_path_exists_def)
  have "grows (files w) (files w')"
    using download_file_exists [OF ex assms(2)] by blast
  then have "os_stat (getcwd env) (files w') (os_path_join output_dir file_name)
      = Some (File content)"
    using assms(1) stat_grows by blast
  moreover have "requests w' = requests w"
    using download_file_exists [OF ex assms(2)] by blast
  ultimately show ?thesis by simp
qed

lemmas path_eval = os_path_isdir_def os_path_exists_def os_stat_def resolve_def start_of_def
  location_of_def components_def stays_def os_path_join_def str_def

lemmas run_eval = download_file_def os_makedirs_def open_wb_def write_chunk_def print_def
  except_clauses_def quiet_env_def start_def Let_def path_eval

text \<open>The theorem at a directory that holds the file \<open>a.pdf\<close> already.\<close>

theorem download_file_keeps_existing_file_witness:
  "os_stat (getcwd quiet_env) (files (start fs_with_file))
     (os_path_join (str ''/d'') (str ''a.pdf'')) = Some (File (str ''old'')) \<and>
   requests (snd (download_file quiet_env (str ''id1'') (str ''a.pdf'') (str ''/d'')
     (start fs_with_file))) = [] \<and>
   os_stat (getcwd quiet_env) (files (snd (download_file quiet_env (str ''id1'') (str ''a.pdf'')
     (str ''/d'') (start fs_with_file)))) (os_path_join (str ''/d'') (str ''a.pdf''))
     = Some (File (str ''old''))"
proof -
  have h: "os_stat (getcwd quiet_env) (files (start fs_with_file))
     (os_path_join (str ''/d'') (str ''a.pdf'')) = Some (File (str ''old''))"
    by (simp add: run_eval fs_with_file_def)
  have r: "requests (start fs_with_file) = []"
    by (simp add: start_def)
  show ?thesis
    using download_file_keeps_existing_file [OF h prod.collapse [symmetric]] h r by simp
qed


text \<open>
  Claim C3 fails on the code. When the directory cannot be created for lack of
  permission, the handler of \<open>download_file\<close> reads \<open>file_path\<close> before it is assigned,
  and the call raises \<open>UnboundLocalError\<close> instead of returning.
\<close>

theorem download_file_unbound_file_path:
  "download_file denied_env (str ''id1'') (str ''a.pdf'') (str ''/p/x'') (start Map.empty) =
     (Raise UnboundLocalError,
      (start Map.empty)\<lparr>console := [Attempting_to_create_directory (str ''/p/x'')]\<rparr>)"
  by (simp add: run_eval denied_env_def)






text \<open>The guard also fires when the destination is the directory itself, spelled with
  a trailing slash because the title of the file is empty, and for a path with \<open>.\<close>
  and \<open>..\<close> components.\<close>

lemma download_file_empty_file_name:
  "download_file quiet_env (str ''id1'') (str '''') (str ''/d'') (start fs_with_dir) =
     (Return (),
      (start fs_with_dir)\<lparr>console :=
         [Attempting_to_create_directory (str ''/d''),
          File_already_exists (str '''') (str ''/d/'')]\<rparr>)"
  by (simp add: run_eval fs_with_dir_def)

lemma download_file_dotted_file_name:
  "download_file quiet_env (str ''id1'') (str ''./../d//a.pdf'') (str ''/d'')
     (start fs_with_file) =
     (Return (),
      (start fs_with_file)\<lparr>console :=
         [Attempting_to_create_directory (str ''/d''),
          File_already_exists (str ''./../d//a.pdf'') (str ''/d/./../d//a.pdf'')]\<rparr>)"
  by (simp add: run_eval fs_with_file_def)

text \<open>With a dangling link whose target cannot be opened, the guard does not fire
  either, but the failure of \<open>open\<close> is logged and nothing is requested or written.\<close>

lemma download_file_dangling_link_unopenable:
  "download_file unopenable_env (str ''id1'') (str ''a.pdf'') (str ''/d'') (start fs_with_link) =
     (Return (),
      (start fs_with_link)\<lparr>console :=
         [Attempting_to_create_directory (str ''/d''),
          OS_error_when_accessing (str ''/d/a.pdf'')]\<rparr>)"
  by (simp add: run_eval fs_with_link_def unopenable_env_def)

text \<open>The defect behind claim C3 in general: every operating-system error of the
  directory creation leaves \<open>download_file\<close> as \<open>UnboundLocalError\<close>.\<close>

lemma download_file_mkdir_failure:
  assumes "os_makedirs env output_dir (files w) = (Some e, F)" and "is_OSError e"
  shows "download_file env file_id file_name output_dir w =
     (Raise UnboundLocalError,
      w\<lparr>console := console w @ [Attempting_to_create_directory output_dir], files := F\<rparr>)"
  using assms by (cases e) (simp_all add: download_file_def except_clauses_def)

section \<open>Properties of the orchestrator\<close>















lemmas main_eval = then_do_def makedirs_def call_def build_services_def install_prerequisites_def
  authenticate_def main_def main_body_def announcement_body_def material_body_def
  file_name_of_def title_of_def first_file_name_def course_dir_name_def
  extract_course_id_def decode_course_id_def b64decode_def is_id_char_def b64_value_def
  is_cont_def get_folder_name_from_title_def strip_def is_space_def re_sub_illegal_def
  illegal_chars_def re_match_module_def is_digit_def ascii_digits_only_def
  run_eval




lemma authenticate_missing_credentials:
  assumes "\<not> credentials_json env"
    and "token_json env = None \<or>
         (\<exists>c. token_json env = Some (Inr c) \<and> \<not> cred_valid c \<and>
              \<not> (cred_expired c \<and> cred_refresh_token c))"
  shows "authenticate env w = (Raise FileNotFoundError, w)"
  using assms by (auto simp: authenticate_def)

text \<open>
  Claim C7, as amended. When \<open>credentials.json\<close> is absent and there is no token, or a
  token that is neither valid nor refreshable, \<open>authenticate\<close> raises
  \<open>FileNotFoundError\<close>. The handler of \<open>main\<close> catches it like any other exception:
  \<open>main\<close> prints one line and returns, nothing else is done, and the process is not
  exited explicitly.
\<close>

theorem main_missing_credentials:
  assumes "prerequisites env = None"
    and "\<not> credentials_json env"
    and "token_json env = None \<or>
         (\<exists>c. token_json env = Some (Inr c) \<and> \<not> cred_valid c \<and>
              \<not> (cred_expired c \<and> cred_refresh_token c))"
  shows "authenticate env w = (Raise FileNotFoundError, w) \<and>
         main env w = (Return (), w\<lparr>console := console w @ [An_error_occurred FileNotFoundError]\<rparr>)"
proof -
  have a: "authenticate env w = (Raise FileNotFoundError, w)"
    using assms(2,3) by (rule authenticate_missing_credentials)
  have "main_body env w = (Raise FileNotFoundError, w)"
    using assms(1) a by (simp add: main_body_def then_do_def install_prerequisites_def)
  then show ?thesis using a by (simp add: main_def print_def)
qed

text \<open>The theorem at an expired token without refresh token.\<close>

theorem main_missing_credentials_witness:
  "authenticate stale_token_env (start Map.empty) = (Raise FileNotFoundError, start Map.empty) \<and>
   main stale_token_env (start Map.empty) =
     (Return (), (start Map.empty)\<lparr>console := [An_error_occurred FileNotFoundError]\<rparr>)"
proof -
  have 1: "prerequisites stale_token_env = None"
    by (simp add: stale_token_env_def quiet_env_def)
  have 2: "\<not> credentials_json stale_token_env"
    by (simp add: stale_token_env_def quiet_env_def)
  have 3: "token_json stale_token_env = None \<or>
         (\<exists>c. token_json stale_token_env = Some (Inr c) \<and> \<not> cred_valid c \<and>
              \<not> (cred_expired c \<and> cred_refresh_token c))"
    by (simp add: stale_token_env_def quiet_env_def)
  show ?thesis
    using main_missing_credentials [OF 1 2 3, of "start Map.empty"] by (simp add: start_def)
qed

text \<open>
  Claim C7 as stated fails: without \<open>credentials.json\<close> and without token, \<open>main\<close>
  returns normally; it does not end with \<open>SystemExit\<close>.
\<close>

theorem main_no_fatal_exit_counterexample:
  "main no_credentials_env (start Map.empty) =
     (Return (), (start Map.empty)\<lparr>console := [An_error_occurred FileNotFoundError]\<rparr>)"
  by (simp add: main_def main_body_def then_do_def install_prerequisites_def authenticate_def
      print_def no_credentials_env_def quiet_env_def start_def)







lemma walk_Failed: "walk F links here rest = Failed e \<Longrightarrow> is_Exception e"
  by (induction F links here rest rule: walk.induct)
    (auto split: if_splits option.splits node.splits)





lemma next_chunks_raises:
  "next_chunks file_id file_name q resp w = (Raise e, w') \<Longrightarrow> response_ok resp \<Longrightarrow>
     is_Exception e"
  by (induction resp arbitrary: w) auto

lemma open_wb_raises:
  "open_wb env p F = Inl e \<Longrightarrow> only_Exceptions env \<Longrightarrow> is_Exception e"
  by (auto simp: open_wb_def resolve_def only_Exceptions_def
      split: resolution.splits option.splits node.splits if_splits dest: walk_Failed)















section \<open>Failures of the directory creation and of the transfer\<close>

lemma except_clauses_bound:
  "is_Exception e \<Longrightarrow> fst (except_clauses file_name (Some file_path) e w) = Return ()"
  by (simp add: except_clauses_def print_def)

text \<open>
  The part of claim C3 that holds: once the directory is there, every exception of
  opening the file and of the transfer that is an instance of \<open>Exception\<close> is caught and
  \<open>download_file\<close> returns.
\<close>

lemma download_file_catches_transfer_errors:
  assumes mk: "os_makedirs env output_dir (files w) = (None, F)" and o: "only_Exceptions env"
  shows "fst (download_file env file_id file_name output_dir w) = Return ()"
proof -
  have d: "os_path_isdir (getcwd env) F output_dir" using mk by (rule makedirs_isdir)
  have r: "response_ok (drive_media env file_id)"
    using o by (simp add: only_Exceptions_def)
  show ?thesis
    unfolding download_file_def Let_def
    using mk d r
    by (auto simp: print_def except_clauses_bound
        split: sum.splits prod.splits outcome.splits
        dest!: open_wb_raises [OF _ o] dest: next_chunks_raises)
qed

text \<open>
  In \<open>main\<close> the folder of a group is created before \<open>download_file\<close> is called, outside
  any handler for the group. When the folder of the first announcement cannot be
  created the run ends there: nothing is requested for the second announcement.
\<close>

lemma main_stops_at_denied_group:
  "main two_groups_env (start Map.empty) =
     (Return (),
      \<lparr>files = [[str ''home''] \<mapsto> Dir, [str ''home'', str ''OS_101''] \<mapsto> Dir],
       console = [Using_Course_ID (str ''617234567890''), Course_found (str ''OS 101''),
                  An_error_occurred PermissionError],
       requests = [], token_written = None\<rparr>)"
  by (simp add: main_eval two_groups_env_def)

end
